theory Spec2Isabelle
  imports Main "HOL-Library.Sublist"
begin

section \<open>RoadPath: a facade over the platform path primitives\<close>

text \<open>
  The module \<^verbatim>\<open>roadpath/path.py\<close> delegates every operation to \<^verbatim>\<open>pathlib.Path\<close> and
  \<^verbatim>\<open>os.path\<close>.  The primitives are embedded here as CPython 3.11 defines them for the
  POSIX flavour (separator \<^verbatim>\<open>/\<close>, no alternative separator, the drive always empty), and
  the module's own classes and functions are embedded on top of them, one definition per
  source function.  A Python \<^verbatim>\<open>str\<close> is a \<^typ>\<open>string\<close>; the primitives inspect no
  character other than the separator and the dot.
\<close>

subsection \<open>String primitives\<close>

definition sep :: char where
  "sep = CHR ''/''"

definition dot :: string where
  "dot = ''.''"

definition dotdot :: string where
  "dotdot = ''..''"

text \<open>\<^verbatim>\<open>s.split(d)\<close> for a one-character delimiter: the pieces between delimiters; never the
  empty list.\<close>

fun split_chr :: "char \<Rightarrow> string \<Rightarrow> string list" where
  "split_chr d [] = [[]]"
| "split_chr d (c # cs) =
     (if c = d then [] # split_chr d cs
      else (case split_chr d cs of
              [] \<Rightarrow> [[c]]
            | w # ws \<Rightarrow> (c # w) # ws))"

definition split_sep :: "string \<Rightarrow> string list" where
  "split_sep s = split_chr sep s"

text \<open>\<^verbatim>\<open>'/'.join(xs)\<close>.\<close>

fun join_sep :: "string list \<Rightarrow> string" where
  "join_sep [] = []"
| "join_sep [x] = x"
| "join_sep (x # y # ys) = x @ sep # join_sep (y # ys)"

text \<open>\<^verbatim>\<open>s.lstrip(d)\<close> for one character.\<close>

definition lstrip_chr :: "char \<Rightarrow> string \<Rightarrow> string" where
  "lstrip_chr d s = dropWhile (\<lambda>c. c = d) s"

definition lstrip_sep :: "string \<Rightarrow> string" where
  "lstrip_sep s = lstrip_chr sep s"

text \<open>\<^verbatim>\<open>s.rfind('.')\<close>: the index of the last dot, or \<open>-1\<close>.\<close>

fun rfind_dot :: "string \<Rightarrow> int" where
  "rfind_dot [] = -1"
| "rfind_dot (c # cs) =
     (let r = rfind_dot cs
      in if r \<ge> 0 then r + 1 else if c = CHR ''.'' then 0 else -1)"

text \<open>\<^verbatim>\<open>s.startswith(t)\<close>.\<close>

definition startswith :: "string \<Rightarrow> string \<Rightarrow> bool" where
  "startswith s t = (take (length t) s = t)"

subsection \<open>Errors\<close>

text \<open>
  The built-in exceptions the primitives raise, and the module's own exception class
  \<^verbatim>\<open>PathError\<close>.  An operation of the module returns \<open>error + 'a\<close>; a primitive returns
  \<open>py_error + 'a\<close> and its exception passes through the module unchanged (\<open>propagate\<close>).
\<close>

datatype py_error = ValueError | TypeError | OSError | RuntimeError | KeyError

datatype error = PathError | Builtin py_error

fun propagate :: "py_error + 'a \<Rightarrow> error + 'a" where
  "propagate (Inl e) = Inl (Builtin e)"
| "propagate (Inr v) = Inr v"

subsection \<open>pathlib: parsing\<close>

text \<open>
  \<^verbatim>\<open>_PosixFlavour.splitroot\<close>: the root is \<^verbatim>\<open>//\<close> for exactly two leading slashes, \<^verbatim>\<open>/\<close> for
  one or more than two, empty otherwise.  The drive, always empty, is left out.
  \<^verbatim>\<open>
  def splitroot(self, part, sep=sep):
      if part and part[0] == sep:
          stripped_part = part.lstrip(sep)
          if len(part) - len(stripped_part) == 2:
              return '', sep * 2, stripped_part
          else:
              return '', sep, stripped_part
      else:
          return '', '', part
  \<close>
\<close>

definition splitroot :: "string \<Rightarrow> string \<times> string" where
  "splitroot part =
     (if part \<noteq> [] \<and> hd part = sep then
        (let stripped_part = lstrip_sep part
         in if length part - length stripped_part = 2
            then ([sep, sep], stripped_part)
            else ([sep], stripped_part))
      else ([], part))"

text \<open>
  The loop of \<^verbatim>\<open>_Flavour.parse_parts\<close> over the reversed arguments: empty arguments are
  skipped, the components of each argument are appended in reverse, and the loop stops at
  the first argument that has a root.  After the loop the root, when there is one, is
  appended and the list is reversed.
  \<^verbatim>\<open>
  def parse_parts(self, parts):
      parsed = []
      drv = root = ''
      it = reversed(parts)
      for part in it:
          if not part:
              continue
          drv, root, rel = self.splitroot(part)
          if sep in rel:
              for x in reversed(rel.split(sep)):
                  if x and x != '.':
                      parsed.append(x)
          else:
              if rel and rel != '.':
                  parsed.append(rel)
          if drv or root:
              break
      if drv or root:
          parsed.append(drv + root)
      parsed.reverse()
      return drv, root, parsed
  \<close>
\<close>

fun parse_loop :: "string list \<Rightarrow> string list \<Rightarrow> string \<times> string list" where
  "parse_loop [] parsed = ([], parsed)"
| "parse_loop (part # it) parsed =
     (if part = [] then parse_loop it parsed
      else (case splitroot part of (root, rel) \<Rightarrow>
        (let parsed' =
               (if sep \<in> set rel
                then parsed @ filter (\<lambda>x. x \<noteq> [] \<and> x \<noteq> dot) (rev (split_sep rel))
                else if rel \<noteq> [] \<and> rel \<noteq> dot then parsed @ [rel] else parsed)
         in if root \<noteq> [] then (root, parsed') else parse_loop it parsed')))"

definition parse_parts :: "string list \<Rightarrow> string \<times> string list" where
  "parse_parts parts =
     (case parse_loop (rev parts) [] of (root, parsed) \<Rightarrow>
        (root, rev (if root \<noteq> [] then parsed @ [root] else parsed)))"

text \<open>
  A \<^verbatim>\<open>PurePath\<close> object: its \<^verbatim>\<open>_root\<close> and its \<^verbatim>\<open>_parts\<close>; the root, when there is one, is
  also the first element of the parts.
\<close>

record pure_path =
  p_root :: string
  p_parts :: "string list"

definition from_parsed_parts :: "string \<Rightarrow> string list \<Rightarrow> pure_path" where
  "from_parsed_parts root parts = \<lparr>p_root = root, p_parts = parts\<rparr>"

text \<open>\<^verbatim>\<open>RoadPath\<close> holds one \<^verbatim>\<open>Path\<close> in \<^verbatim>\<open>_path\<close>.\<close>

datatype RoadPath = RoadPath (path_of: pure_path)

text \<open>
  The Python values the module's dynamically typed parameters receive: a string, a
  \<^verbatim>\<open>Path\<close>, a \<^verbatim>\<open>RoadPath\<close>, and values of other types.
\<close>

datatype pyobj =
    PyStr string
  | PyPath pure_path
  | PyRoadPath RoadPath
  | PyNone
  | PyInt int
  | PyList "pyobj list"

text \<open>
  \<^verbatim>\<open>PurePath._parse_args\<close>: a path argument contributes its parts, a string itself, and
  anything else raises \<^verbatim>\<open>TypeError\<close> (from \<^verbatim>\<open>os.fspath\<close>).
\<close>

fun collect_args :: "pyobj list \<Rightarrow> string list \<Rightarrow> py_error + string list" where
  "collect_args [] parts = Inr parts"
| "collect_args (PyPath a # as) parts = collect_args as (parts @ p_parts a)"
| "collect_args (PyStr a # as) parts = collect_args as (parts @ [a])"
| "collect_args (_ # as) parts = Inl TypeError"

definition parse_args :: "pyobj list \<Rightarrow> py_error + string \<times> string list" where
  "parse_args args =
     (case collect_args args [] of
        Inl e \<Rightarrow> Inl e
      | Inr parts \<Rightarrow> Inr (parse_parts parts))"

text \<open>\<^verbatim>\<open>Path(*args)\<close>, that is \<^verbatim>\<open>PurePath._from_parts\<close>.\<close>

definition Path :: "pyobj list \<Rightarrow> py_error + pure_path" where
  "Path args =
     (case parse_args args of
        Inl e \<Rightarrow> Inl e
      | Inr (root, parts) \<Rightarrow> Inr (from_parsed_parts root parts))"

text \<open>\<^verbatim>\<open>Path(s)\<close> for one string, which cannot raise.\<close>

definition Path_str :: "string \<Rightarrow> pure_path" where
  "Path_str s = (case parse_parts [s] of (root, parts) \<Rightarrow> from_parsed_parts root parts)"

subsection \<open>pathlib: accessors\<close>

text \<open>
  \<^verbatim>\<open>
  def _format_parsed_parts(cls, drv, root, parts):
      if drv or root:
          return drv + root + cls._flavour.join(parts[1:])
      else:
          return cls._flavour.join(parts)
  \<close>
\<close>

definition format_parsed_parts :: "string \<Rightarrow> string list \<Rightarrow> string" where
  "format_parsed_parts root parts =
     (if root \<noteq> [] then root @ join_sep (tl parts) else join_sep parts)"

text \<open>
  \<^verbatim>\<open>PurePath.__str__\<close>, which is \<^verbatim>\<open>self._format_parsed_parts(...) or '.'\<close>; \<^verbatim>\<open>os.fspath\<close> of a
  path is the same string.
\<close>

definition str_path :: "pure_path \<Rightarrow> string" where
  "str_path p =
     (let s = format_parsed_parts (p_root p) (p_parts p) in if s \<noteq> [] then s else dot)"

text \<open>
  \<^verbatim>\<open>PurePath.__eq__\<close> between two paths of one flavour compares the parts
  (\<^verbatim>\<open>self._cparts == other._cparts\<close>, and the POSIX flavour folds no case).
\<close>

definition path_eq :: "pure_path \<Rightarrow> pure_path \<Rightarrow> bool" where
  "path_eq a b = (p_parts a = p_parts b)"

text \<open>
  \<^verbatim>\<open>
  def name(self):
      parts = self._parts
      if len(parts) == (1 if (self._drv or self._root) else 0):
          return ''
      return parts[-1]

  def suffix(self):
      name = self.name
      i = name.rfind('.')
      if 0 < i < len(name) - 1:
          return name[i:]
      else:
          return ''

  def parent(self):
      drv = self._drv; root = self._root; parts = self._parts
      if len(parts) == 1 and (drv or root):
          return self
      return self._from_parsed_parts(drv, root, parts[:-1])
  \<close>
  \<^verbatim>\<open>stem\<close> is \<^verbatim>\<open>suffix\<close> with \<^verbatim>\<open>name[:i]\<close> and \<^verbatim>\<open>name\<close> for the two results.
\<close>

definition Path_name :: "pure_path \<Rightarrow> string" where
  "Path_name p =
     (let parts = p_parts p
      in if length parts = (if p_root p \<noteq> [] then 1 else 0) then [] else last parts)"

definition Path_suffix :: "pure_path \<Rightarrow> string" where
  "Path_suffix p =
     (let name = Path_name p; i = rfind_dot name
      in if 0 < i \<and> i < int (length name) - 1 then drop (nat i) name else [])"

definition Path_stem :: "pure_path \<Rightarrow> string" where
  "Path_stem p =
     (let name = Path_name p; i = rfind_dot name
      in if 0 < i \<and> i < int (length name) - 1 then take (nat i) name else name)"

definition Path_parent :: "pure_path \<Rightarrow> pure_path" where
  "Path_parent p =
     (let parts = p_parts p
      in if length parts = 1 \<and> p_root p \<noteq> [] then p
         else from_parsed_parts (p_root p) (butlast parts))"

definition Path_is_absolute :: "pure_path \<Rightarrow> bool" where
  "Path_is_absolute p = (p_root p \<noteq> [])"

text \<open>
  \<^verbatim>\<open>PurePath.suffixes\<close>: none when the name ends with a dot; otherwise one per dot after
  the leading dots.
\<close>

definition Path_suffixes :: "pure_path \<Rightarrow> string list" where
  "Path_suffixes p =
     (let name = Path_name p
      in if name \<noteq> [] \<and> last name = CHR ''.'' then []
         else map (\<lambda>suffix. CHR ''.'' # suffix)
                (tl (split_chr (CHR ''.'') (lstrip_chr (CHR ''.'') name))))"

text \<open>
  \<^verbatim>\<open>_PathParents\<close>: entry \<open>idx\<close> drops the last \<open>idx + 1\<close> parts; there is one entry per
  part that is not the root.
\<close>

definition Path_parents :: "pure_path \<Rightarrow> pure_path list" where
  "Path_parents p =
     (let parts = p_parts p;
          n = (if p_root p \<noteq> [] then length parts - 1 else length parts)
      in map (\<lambda>idx. from_parsed_parts (p_root p) (take (length parts - idx - 1) parts))
           [0 ..< n])"

subsection \<open>pathlib: algebra\<close>

text \<open>
  \<^verbatim>\<open>_Flavour.join_parsed_parts\<close> with both drives empty: a rooted second path replaces the
  first, any other is appended.
\<close>

definition join_parsed_parts ::
  "string \<Rightarrow> string list \<Rightarrow> string \<Rightarrow> string list \<Rightarrow> string \<times> string list" where
  "join_parsed_parts root parts root2 parts2 =
     (if root2 \<noteq> [] then (root2, parts2) else (root, parts @ parts2))"

text \<open>\<^verbatim>\<open>PurePath._make_child\<close>, behind \<^verbatim>\<open>joinpath\<close> and the \<^verbatim>\<open>/\<close> operator.\<close>

definition make_child :: "pure_path \<Rightarrow> pyobj list \<Rightarrow> py_error + pure_path" where
  "make_child p args =
     (case parse_args args of
        Inl e \<Rightarrow> Inl e
      | Inr (root2, parts2) \<Rightarrow>
          (case join_parsed_parts (p_root p) (p_parts p) root2 parts2 of
             (root, parts) \<Rightarrow> Inr (from_parsed_parts root parts)))"

definition Path_joinpath :: "pure_path \<Rightarrow> pyobj list \<Rightarrow> py_error + pure_path" where
  "Path_joinpath p args = make_child p args"

text \<open>
  \<^verbatim>\<open>PurePath.__truediv__\<close>: a \<^verbatim>\<open>TypeError\<close> of \<^verbatim>\<open>_make_child\<close> becomes \<^verbatim>\<open>NotImplemented\<close>, and
  with no reflected operator on the other side Python raises \<^verbatim>\<open>TypeError\<close> again.
\<close>

definition Path_truediv :: "pure_path \<Rightarrow> pyobj \<Rightarrow> py_error + pure_path" where
  "Path_truediv p key = make_child p [key]"

text \<open>
  \<^verbatim>\<open>
  def with_name(self, name):
      if not self.name:
          raise ValueError(...)
      drv, root, parts = self._flavour.parse_parts((name,))
      if (not name or name[-1] in [self._flavour.sep, self._flavour.altsep]
          or drv or root or len(parts) != 1):
          raise ValueError(...)
      return self._from_parsed_parts(self._drv, self._root, self._parts[:-1] + [name])

  def with_stem(self, stem):
      return self.with_name(stem + self.suffix)

  def with_suffix(self, suffix):
      f = self._flavour
      if f.sep in suffix or f.altsep and f.altsep in suffix:
          raise ValueError(...)
      if suffix and not suffix.startswith('.') or suffix == '.':
          raise ValueError(...)
      name = self.name
      if not name:
          raise ValueError(...)
      old_suffix = self.suffix
      if not old_suffix:
          name = name + suffix
      else:
          name = name[:-len(old_suffix)] + suffix
      return self._from_parsed_parts(self._drv, self._root, self._parts[:-1] + [name])
  \<close>
\<close>

definition Path_with_name :: "pure_path \<Rightarrow> string \<Rightarrow> py_error + pure_path" where
  "Path_with_name p name' =
     (if Path_name p = [] then Inl ValueError
      else (case parse_parts [name'] of (root, parts) \<Rightarrow>
        if name' = [] \<or> last name' = sep \<or> root \<noteq> [] \<or> length parts \<noteq> 1
        then Inl ValueError
        else Inr (from_parsed_parts (p_root p) (butlast (p_parts p) @ [name']))))"

definition Path_with_stem :: "pure_path \<Rightarrow> string \<Rightarrow> py_error + pure_path" where
  "Path_with_stem p stem' = Path_with_name p (stem' @ Path_suffix p)"

definition Path_with_suffix :: "pure_path \<Rightarrow> string \<Rightarrow> py_error + pure_path" where
  "Path_with_suffix p suffix' =
     (if sep \<in> set suffix' then Inl ValueError
      else if (suffix' \<noteq> [] \<and> \<not> startswith suffix' dot) \<or> suffix' = dot then Inl ValueError
      else (let name = Path_name p
            in if name = [] then Inl ValueError
               else (let old_suffix = Path_suffix p;
                         name = (if old_suffix = [] then name @ suffix'
                                 else take (length name - length old_suffix) name @ suffix')
                     in Inr (from_parsed_parts (p_root p) (butlast (p_parts p) @ [name])))))"

text \<open>
  \<^verbatim>\<open>PurePath.relative_to\<close> with one argument.  Drive and root count as two leading
  components; the other path must be a prefix of this one, else \<^verbatim>\<open>ValueError\<close>.
  \<^verbatim>\<open>
  def relative_to(self, *other):
      parts = self._parts; drv = self._drv; root = self._root
      if root:
          abs_parts = [drv, root] + parts[1:]
      else:
          abs_parts = parts
      to_drv, to_root, to_parts = self._parse_args(other)
      if to_root:
          to_abs_parts = [to_drv, to_root] + to_parts[1:]
      else:
          to_abs_parts = to_parts
      n = len(to_abs_parts)
      cf = self._flavour.casefold_parts
      if (root or drv) if n == 0 else cf(abs_parts[:n]) != cf(to_abs_parts):
          raise ValueError(...)
      return self._from_parsed_parts('', root if n == 1 else '', abs_parts[n:])
  \<close>
\<close>

definition abs_parts :: "string \<Rightarrow> string list \<Rightarrow> string list" where
  "abs_parts root parts = (if root \<noteq> [] then [[], root] @ tl parts else parts)"

definition Path_relative_to :: "pure_path \<Rightarrow> pyobj \<Rightarrow> py_error + pure_path" where
  "Path_relative_to p other =
     (case parse_args [other] of
        Inl e \<Rightarrow> Inl e
      | Inr (to_root, to_parts) \<Rightarrow>
          (let root = p_root p;
               abs = abs_parts root (p_parts p);
               to_abs = abs_parts to_root to_parts;
               n = length to_abs
           in if (if n = 0 then root \<noteq> [] else take n abs \<noteq> to_abs)
              then Inl ValueError
              else Inr (from_parsed_parts (if n = 1 then root else []) (drop n abs))))"

subsection \<open>os.path\<close>

text \<open>
  The loop of \<^verbatim>\<open>posixpath.normpath\<close> over the components: empty and \<^verbatim>\<open>.\<close> components are
  skipped; \<^verbatim>\<open>..\<close> removes the component before it, unless there is none to remove in a
  relative path or the one before is itself \<^verbatim>\<open>..\<close>; at the root \<^verbatim>\<open>..\<close> is dropped.
  \<^verbatim>\<open>
  def normpath(path):
      if path == empty:
          return dot
      initial_slashes = path.startswith(sep)
      if (initial_slashes and
          path.startswith(sep*2) and not path.startswith(sep*3)):
          initial_slashes = 2
      comps = path.split(sep)
      new_comps = []
      for comp in comps:
          if comp in (empty, dot):
              continue
          if (comp != dotdot or (not initial_slashes and not new_comps) or
               (new_comps and new_comps[-1] == dotdot)):
              new_comps.append(comp)
          elif new_comps:
              new_comps.pop()
      comps = new_comps
      path = sep.join(comps)
      if initial_slashes:
          path = sep*initial_slashes + path
      return path or dot
  \<close>
\<close>

fun normpath_loop :: "string list \<Rightarrow> nat \<Rightarrow> string list \<Rightarrow> string list" where
  "normpath_loop [] initial_slashes new_comps = new_comps"
| "normpath_loop (cmp # comps) initial_slashes new_comps =
     (if cmp = [] \<or> cmp = dot then normpath_loop comps initial_slashes new_comps
      else if cmp \<noteq> dotdot \<or> (initial_slashes = 0 \<and> new_comps = [])
              \<or> (new_comps \<noteq> [] \<and> last new_comps = dotdot)
      then normpath_loop comps initial_slashes (new_comps @ [cmp])
      else if new_comps \<noteq> [] then normpath_loop comps initial_slashes (butlast new_comps)
      else normpath_loop comps initial_slashes new_comps)"

definition initial_slashes :: "string \<Rightarrow> nat" where
  "initial_slashes path =
     (if startswith path [sep] then
        (if startswith path [sep, sep] \<and> \<not> startswith path [sep, sep, sep] then 2 else 1)
      else 0)"

definition normpath :: "string \<Rightarrow> string" where
  "normpath path =
     (if path = [] then dot
      else (let i = initial_slashes path;
                comps = normpath_loop (split_sep path) i [];
                path' = join_sep comps;
                path'' = (if i \<noteq> 0 then replicate i sep @ path' else path')
            in if path'' \<noteq> [] then path'' else dot))"

subsection \<open>The environment\<close>

text \<open>
  The primitives that read the process environment or the filesystem, or whose result no
  property below depends on, are parameters: one record of functions, each returning what
  the primitive returns or the built-in exception it raises.
\<close>

record platform =
  os_getcwd :: "py_error + string"
  Path_home :: "py_error + pure_path"
  gettempdir :: "py_error + string"
  os_expanduser :: "string \<Rightarrow> string"
  os_expandvars :: "string \<Rightarrow> string"
  os_commonpath :: "string list \<Rightarrow> py_error + string"
  os_commonprefix :: "string list \<Rightarrow> string"
  os_samefile :: "string \<Rightarrow> string \<Rightarrow> py_error + bool"
  Path_resolve :: "pure_path \<Rightarrow> py_error + pure_path"
  Path_exists :: "pure_path \<Rightarrow> py_error + bool"
  Path_is_file :: "pure_path \<Rightarrow> py_error + bool"
  Path_is_dir :: "pure_path \<Rightarrow> py_error + bool"
  Path_is_symlink :: "pure_path \<Rightarrow> py_error + bool"
  Path_match :: "pure_path \<Rightarrow> string \<Rightarrow> py_error + bool"
  Path_glob :: "pure_path \<Rightarrow> string \<Rightarrow> py_error + pure_path list"
  Path_rglob :: "pure_path \<Rightarrow> string \<Rightarrow> py_error + pure_path list"
  Path_repr :: "pure_path \<Rightarrow> string"

text \<open>\<^verbatim>\<open>Path.cwd()\<close> is \<^verbatim>\<open>Path(os.getcwd())\<close>.\<close>

definition Path_cwd :: "platform \<Rightarrow> py_error + pure_path" where
  "Path_cwd pf =
     (case os_getcwd pf of Inl e \<Rightarrow> Inl e | Inr s \<Rightarrow> Path [PyStr s])"

text \<open>\<^verbatim>\<open>Path.absolute\<close>: an absolute path is returned as it is, any other is appended to the
  working directory.\<close>

definition Path_absolute :: "platform \<Rightarrow> pure_path \<Rightarrow> py_error + pure_path" where
  "Path_absolute pf p =
     (if Path_is_absolute p then Inr p
      else (case Path_cwd pf of
              Inl e \<Rightarrow> Inl e
            | Inr c \<Rightarrow> Path (PyPath c # map PyStr (p_parts p))))"

subsection \<open>RoadPath\<close>

text \<open>Sequencing of calls that may raise.\<close>

definition and_then :: "'e + 'a \<Rightarrow> ('a \<Rightarrow> 'e + 'b) \<Rightarrow> 'e + 'b" where
  "and_then m f = (case m of Inl e \<Rightarrow> Inl e | Inr v \<Rightarrow> f v)"

text \<open>
  \<^verbatim>\<open>RoadPath.__init__\<close>: another \<^verbatim>\<open>RoadPath\<close> shares its path; anything else goes through
  \<^verbatim>\<open>Path(path)\<close>.
\<close>

definition RoadPath_init :: "pyobj \<Rightarrow> error + RoadPath" where
  "RoadPath_init p =
     (case p of
        PyRoadPath r \<Rightarrow> Inr (RoadPath (path_of r))
      | _ \<Rightarrow> and_then (propagate (Path [p])) (\<lambda>q. Inr (RoadPath q)))"

definition RoadPath_cwd :: "platform \<Rightarrow> error + RoadPath" where
  "RoadPath_cwd pf = and_then (propagate (Path_cwd pf)) (\<lambda>c. RoadPath_init (PyPath c))"

definition RoadPath_home :: "platform \<Rightarrow> error + RoadPath" where
  "RoadPath_home pf = and_then (propagate (Path_home pf)) (\<lambda>h. RoadPath_init (PyPath h))"

definition RoadPath_temp :: "platform \<Rightarrow> error + RoadPath" where
  "RoadPath_temp pf = and_then (propagate (gettempdir pf)) (\<lambda>t. RoadPath_init (PyStr t))"

definition RoadPath_str :: "RoadPath \<Rightarrow> string" where
  "RoadPath_str self = str_path (path_of self)"

definition RoadPath_repr :: "platform \<Rightarrow> RoadPath \<Rightarrow> string" where
  "RoadPath_repr pf self = ''RoadPath('' @ Path_repr pf (path_of self) @ '')''"

definition RoadPath_truediv :: "RoadPath \<Rightarrow> pyobj \<Rightarrow> error + RoadPath" where
  "RoadPath_truediv self other =
     and_then (propagate (Path_truediv (path_of self) other)) (\<lambda>q. RoadPath_init (PyPath q))"

text \<open>
  \<^verbatim>\<open>RoadPath.__eq__\<close>: against a \<^verbatim>\<open>RoadPath\<close> the two paths are compared, against a string
  or a \<^verbatim>\<open>Path\<close> the path and \<^verbatim>\<open>Path(other)\<close>; against anything else the result is
  \<^verbatim>\<open>False\<close>.
\<close>

definition RoadPath_eq :: "RoadPath \<Rightarrow> pyobj \<Rightarrow> error + bool" where
  "RoadPath_eq self other =
     (case other of
        PyRoadPath r \<Rightarrow> Inr (path_eq (path_of self) (path_of r))
      | PyStr s \<Rightarrow>
          and_then (propagate (Path [other])) (\<lambda>q. Inr (path_eq (path_of self) q))
      | PyPath p \<Rightarrow>
          and_then (propagate (Path [other])) (\<lambda>q. Inr (path_eq (path_of self) q))
      | _ \<Rightarrow> Inr False)"

definition RoadPath_path :: "RoadPath \<Rightarrow> pure_path" where
  "RoadPath_path self = path_of self"

definition RoadPath_name :: "RoadPath \<Rightarrow> string" where
  "RoadPath_name self = Path_name (path_of self)"

definition RoadPath_stem :: "RoadPath \<Rightarrow> string" where
  "RoadPath_stem self = Path_stem (path_of self)"

definition RoadPath_suffix :: "RoadPath \<Rightarrow> string" where
  "RoadPath_suffix self = Path_suffix (path_of self)"

definition RoadPath_suffixes :: "RoadPath \<Rightarrow> string list" where
  "RoadPath_suffixes self = Path_suffixes (path_of self)"

definition RoadPath_parent :: "RoadPath \<Rightarrow> error + RoadPath" where
  "RoadPath_parent self = RoadPath_init (PyPath (Path_parent (path_of self)))"

text \<open>The list comprehension of \<^verbatim>\<open>parents\<close>, \<^verbatim>\<open>glob\<close> and \<^verbatim>\<open>rglob\<close>.\<close>

fun RoadPath_each :: "pure_path list \<Rightarrow> error + RoadPath list" where
  "RoadPath_each [] = Inr []"
| "RoadPath_each (p # ps) =
     and_then (RoadPath_init (PyPath p))
       (\<lambda>r. and_then (RoadPath_each ps) (\<lambda>rs. Inr (r # rs)))"

definition RoadPath_parents :: "RoadPath \<Rightarrow> error + RoadPath list" where
  "RoadPath_parents self = RoadPath_each (Path_parents (path_of self))"

definition RoadPath_parts :: "RoadPath \<Rightarrow> string list" where
  "RoadPath_parts self = p_parts (path_of self)"

record PathParts =
  drive :: string
  root :: string
  parts :: "string list"
  name :: string
  stem :: string
  suffix :: string
  suffixes :: "string list"
  parent :: string

definition RoadPath_parse :: "RoadPath \<Rightarrow> PathParts" where
  "RoadPath_parse self =
     \<lparr>drive = [],
      root = p_root (path_of self),
      parts = p_parts (path_of self),
      name = Path_name (path_of self),
      stem = Path_stem (path_of self),
      suffix = Path_suffix (path_of self),
      suffixes = Path_suffixes (path_of self),
      parent = str_path (Path_parent (path_of self))\<rparr>"

definition RoadPath_absolute :: "platform \<Rightarrow> RoadPath \<Rightarrow> error + RoadPath" where
  "RoadPath_absolute pf self =
     and_then (propagate (Path_absolute pf (path_of self))) (\<lambda>q. RoadPath_init (PyPath q))"

definition RoadPath_resolve :: "platform \<Rightarrow> RoadPath \<Rightarrow> error + RoadPath" where
  "RoadPath_resolve pf self =
     and_then (propagate (Path_resolve pf (path_of self))) (\<lambda>q. RoadPath_init (PyPath q))"

definition RoadPath_normalize :: "RoadPath \<Rightarrow> error + RoadPath" where
  "RoadPath_normalize self = RoadPath_init (PyStr (normpath (str_path (path_of self))))"

definition RoadPath_relative_to :: "RoadPath \<Rightarrow> pyobj \<Rightarrow> error + RoadPath" where
  "RoadPath_relative_to self base =
     (let base = (case base of PyRoadPath r \<Rightarrow> PyPath (path_of r) | _ \<Rightarrow> base)
      in and_then (propagate (Path_relative_to (path_of self) base))
           (\<lambda>q. RoadPath_init (PyPath q)))"

definition RoadPath_with_name :: "RoadPath \<Rightarrow> string \<Rightarrow> error + RoadPath" where
  "RoadPath_with_name self n =
     and_then (propagate (Path_with_name (path_of self) n)) (\<lambda>q. RoadPath_init (PyPath q))"

definition RoadPath_with_stem :: "RoadPath \<Rightarrow> string \<Rightarrow> error + RoadPath" where
  "RoadPath_with_stem self s =
     and_then (propagate (Path_with_stem (path_of self) s)) (\<lambda>q. RoadPath_init (PyPath q))"

definition RoadPath_with_suffix :: "RoadPath \<Rightarrow> string \<Rightarrow> error + RoadPath" where
  "RoadPath_with_suffix self x =
     and_then (propagate (Path_with_suffix (path_of self) x)) (\<lambda>q. RoadPath_init (PyPath q))"

definition RoadPath_join :: "RoadPath \<Rightarrow> string list \<Rightarrow> error + RoadPath" where
  "RoadPath_join self ps =
     and_then (propagate (Path_joinpath (path_of self) (map PyStr ps)))
       (\<lambda>q. RoadPath_init (PyPath q))"

definition RoadPath_exists :: "platform \<Rightarrow> RoadPath \<Rightarrow> error + bool" where
  "RoadPath_exists pf self = propagate (Path_exists pf (path_of self))"

definition RoadPath_is_file :: "platform \<Rightarrow> RoadPath \<Rightarrow> error + bool" where
  "RoadPath_is_file pf self = propagate (Path_is_file pf (path_of self))"

definition RoadPath_is_dir :: "platform \<Rightarrow> RoadPath \<Rightarrow> error + bool" where
  "RoadPath_is_dir pf self = propagate (Path_is_dir pf (path_of self))"

definition RoadPath_is_symlink :: "platform \<Rightarrow> RoadPath \<Rightarrow> error + bool" where
  "RoadPath_is_symlink pf self = propagate (Path_is_symlink pf (path_of self))"

definition RoadPath_is_absolute :: "RoadPath \<Rightarrow> bool" where
  "RoadPath_is_absolute self = Path_is_absolute (path_of self)"

definition RoadPath_match :: "platform \<Rightarrow> RoadPath \<Rightarrow> string \<Rightarrow> error + bool" where
  "RoadPath_match pf self pattern = propagate (Path_match pf (path_of self) pattern)"

definition RoadPath_glob :: "platform \<Rightarrow> RoadPath \<Rightarrow> string \<Rightarrow> error + RoadPath list" where
  "RoadPath_glob pf self pattern =
     and_then (propagate (Path_glob pf (path_of self) pattern)) RoadPath_each"

definition RoadPath_rglob :: "platform \<Rightarrow> RoadPath \<Rightarrow> string \<Rightarrow> error + RoadPath list" where
  "RoadPath_rglob pf self pattern =
     and_then (propagate (Path_rglob pf (path_of self) pattern)) RoadPath_each"

subsection \<open>Free functions\<close>

text \<open>
  The module-level functions take and return strings.  \<^verbatim>\<open>Path(path)\<close> of one string is
  \<open>Path_str\<close>; where the primitive can raise, so can the function.
\<close>

definition join :: "string list \<Rightarrow> error + string" where
  "join ps = and_then (propagate (Path (map PyStr ps))) (\<lambda>q. Inr (str_path q))"

definition split :: "string \<Rightarrow> string \<times> string" where
  "split s = (let p = Path_str s in (str_path (Path_parent p), Path_name p))"

definition dirname :: "string \<Rightarrow> string" where
  "dirname s = str_path (Path_parent (Path_str s))"

definition basename :: "string \<Rightarrow> string" where
  "basename s = Path_name (Path_str s)"

definition splitext :: "string \<Rightarrow> error + string \<times> string" where
  "splitext s =
     (let p = Path_str s
      in and_then (propagate (Path_with_suffix p []))
           (\<lambda>q. Inr (str_path q, Path_suffix p)))"

definition normalize :: "string \<Rightarrow> string" where
  "normalize s = normpath s"

definition absolute :: "platform \<Rightarrow> string \<Rightarrow> error + string" where
  "absolute pf s =
     and_then (propagate (Path_absolute pf (Path_str s))) (\<lambda>q. Inr (str_path q))"

definition resolve :: "platform \<Rightarrow> string \<Rightarrow> error + string" where
  "resolve pf s =
     and_then (propagate (Path_resolve pf (Path_str s))) (\<lambda>q. Inr (str_path q))"

text \<open>
  \<^verbatim>\<open>relative(path, base=None)\<close>: \<^verbatim>\<open>base or os.getcwd()\<close> takes the working directory when
  \<^verbatim>\<open>base\<close> is falsy, that is \<^verbatim>\<open>None\<close> or the empty string.
\<close>

definition relative :: "platform \<Rightarrow> string \<Rightarrow> string option \<Rightarrow> error + string" where
  "relative pf s base =
     and_then
       (case base of
          None \<Rightarrow> propagate (os_getcwd pf)
        | Some b \<Rightarrow> if b \<noteq> [] then Inr b else propagate (os_getcwd pf))
       (\<lambda>b. and_then (propagate (Path_relative_to (Path_str s) (PyStr b)))
               (\<lambda>q. Inr (str_path q)))"

definition expanduser :: "platform \<Rightarrow> string \<Rightarrow> string" where
  "expanduser pf s = os_expanduser pf s"

definition expandvars :: "platform \<Rightarrow> string \<Rightarrow> string" where
  "expandvars pf s = os_expandvars pf s"

definition expand :: "platform \<Rightarrow> string \<Rightarrow> string" where
  "expand pf s = expandvars pf (expanduser pf s)"

definition commonpath :: "platform \<Rightarrow> string list \<Rightarrow> error + string" where
  "commonpath pf paths = propagate (os_commonpath pf paths)"

definition commonprefix :: "platform \<Rightarrow> string list \<Rightarrow> string" where
  "commonprefix pf paths = os_commonprefix pf paths"

definition samefile :: "platform \<Rightarrow> string \<Rightarrow> string \<Rightarrow> error + bool" where
  "samefile pf path1 path2 = propagate (os_samefile pf path1 path2)"

subsection \<open>PathBuilder\<close>

text \<open>
  The builder's state is the list \<^verbatim>\<open>_parts\<close>.  Each method that returns \<^verbatim>\<open>self\<close> returns
  the builder in its new state.
\<close>

record PathBuilder =
  b_parts :: "string list"

definition PathBuilder_init :: "string \<Rightarrow> PathBuilder" where
  "PathBuilder_init base = \<lparr>b_parts = (if base \<noteq> [] then [base] else [])\<rparr>"

definition PathBuilder_add :: "PathBuilder \<Rightarrow> string list \<Rightarrow> PathBuilder" where
  "PathBuilder_add self ps = self\<lparr>b_parts := b_parts self @ ps\<rparr>"

definition PathBuilder_parent :: "PathBuilder \<Rightarrow> PathBuilder" where
  "PathBuilder_parent self = self\<lparr>b_parts := b_parts self @ [dotdot]\<rparr>"

definition PathBuilder_build :: "PathBuilder \<Rightarrow> error + RoadPath" where
  "PathBuilder_build self =
     and_then (propagate (Path (map PyStr (b_parts self)))) (\<lambda>q. RoadPath_init (PyPath q))"

definition PathBuilder_str :: "PathBuilder \<Rightarrow> error + string" where
  "PathBuilder_str self = and_then (PathBuilder_build self) (\<lambda>r. Inr (RoadPath_str r))"

definition builder :: "string \<Rightarrow> PathBuilder" where
  "builder base = PathBuilder_init base"

subsection \<open>Well-formed paths\<close>

text \<open>
  What parsing establishes: the root is empty, \<^verbatim>\<open>/\<close> or \<^verbatim>\<open>//\<close>; the parts are the root, when
  there is one, followed by the components; a component is not empty, is not \<^verbatim>\<open>.\<close> and
  holds no separator.
\<close>

definition wf_comp :: "string \<Rightarrow> bool" where
  "wf_comp c = (c \<noteq> [] \<and> c \<noteq> dot \<and> sep \<notin> set c)"

definition wf_root :: "string \<Rightarrow> bool" where
  "wf_root r = (r = [] \<or> r = [sep] \<or> r = [sep, sep])"

definition components :: "pure_path \<Rightarrow> string list" where
  "components p = (if p_root p \<noteq> [] then tl (p_parts p) else p_parts p)"

definition wf_path :: "pure_path \<Rightarrow> bool" where
  "wf_path p =
     (wf_root (p_root p) \<and> list_all wf_comp (components p) \<and>
      p_parts p = (if p_root p \<noteq> [] then p_root p # components p else components p))"

text \<open>The components of a string: the pieces between separators that parsing keeps.\<close>

definition comps_of :: "string \<Rightarrow> string list" where
  "comps_of s = filter (\<lambda>x. x \<noteq> [] \<and> x \<noteq> dot) (split_sep s)"

text \<open>The well-formed path with root \<open>r\<close> and components \<open>cs\<close>.\<close>

definition mk_path :: "string \<Rightarrow> string list \<Rightarrow> pure_path" where
  "mk_path r cs = \<lparr>p_root = r, p_parts = (if r \<noteq> [] then r # cs else cs)\<rparr>"

text \<open>The expressions \<^verbatim>\<open>str(RoadPath(s))\<close> and \<^verbatim>\<open>RoadPath(s) == RoadPath(t)\<close>.\<close>

definition str_RoadPath :: "string \<Rightarrow> error + string" where
  "str_RoadPath s = and_then (RoadPath_init (PyStr s)) (\<lambda>r. Inr (RoadPath_str r))"

definition RoadPath_str_eq :: "string \<Rightarrow> string \<Rightarrow> error + bool" where
  "RoadPath_str_eq s t =
     and_then (RoadPath_init (PyStr s))
       (\<lambda>a. and_then (RoadPath_init (PyStr t)) (\<lambda>b. RoadPath_eq a (PyRoadPath b)))"

text \<open>An outcome that is the module's own exception.\<close>

definition raises_PathError :: "error + 'a \<Rightarrow> bool" where
  "raises_PathError r = (r = Inl PathError)"

text \<open>
  The paths one path lies under, as the components compare: the same root, and the
  other's components are the first of its own.
\<close>

definition lexical_descendant :: "pure_path \<Rightarrow> pure_path \<Rightarrow> bool" where
  "lexical_descendant p b = (p_root p = p_root b \<and> prefix (components b) (components p))"

text \<open>
  A platform for evaluating concrete calls: the working directory is \<^verbatim>\<open>/home/user\<close>, no
  file exists, nothing is expanded.
\<close>

definition bare_platform :: platform where
  "bare_platform =
     \<lparr>os_getcwd = Inr ''/home/user'',
      Path_home = Inr (Path_str ''/home/user''),
      gettempdir = Inr ''/tmp'',
      os_expanduser = (\<lambda>s. s),
      os_expandvars = (\<lambda>s. s),
      os_commonpath = (\<lambda>ps. Inl ValueError),
      os_commonprefix = (\<lambda>ps. []),
      os_samefile = (\<lambda>a b. Inl OSError),
      Path_resolve = (\<lambda>p. Inr p),
      Path_exists = (\<lambda>p. Inr False),
      Path_is_file = (\<lambda>p. Inr False),
      Path_is_dir = (\<lambda>p. Inr False),
      Path_is_symlink = (\<lambda>p. Inr False),
      Path_match = (\<lambda>p pat. Inr False),
      Path_glob = (\<lambda>p pat. Inr []),
      Path_rglob = (\<lambda>p pat. Inr []),
      Path_repr = (\<lambda>p. ''PosixPath('' @ str_path p @ '')'')\<rparr>"

section \<open>Properties\<close>

subsection \<open>Splitting and joining\<close>

text \<open>
  Splitting undoes joining for components that hold no separator, and the pieces of a
  split hold none.
\<close>

lemma split_chr_nonempty: "split_chr d s \<noteq> []"
  by (induction s) (auto split: list.splits)

lemma split_chr_no_delim: "d \<notin> set s \<Longrightarrow> split_chr d s = [s]"
  by (induction s) auto

lemma split_chr_append: "d \<notin> set a \<Longrightarrow> split_chr d (a @ d # b) = a # split_chr d b"
  by (induction a) auto

lemma split_chr_pieces: "c \<in> set (split_chr d s) \<Longrightarrow> d \<notin> set c"
proof (induction s arbitrary: c)
  case Nil
  then show ?case by simp
next
  case (Cons x s)
  show ?case
  proof (cases "x = d")
    case True
    with Cons show ?thesis by auto
  next
    case False
    obtain w ws where ws: "split_chr d s = w # ws"
      using split_chr_nonempty [of d s] by (cases "split_chr d s") auto
    with Cons False show ?thesis by auto
  qed
qed

lemma join_sep_Cons: "xs \<noteq> [] \<Longrightarrow> join_sep (x # xs) = x @ sep # join_sep xs"
  by (cases xs) auto

lemma split_join:
  "comps \<noteq> [] \<Longrightarrow> list_all (\<lambda>c. sep \<notin> set c) comps \<Longrightarrow> split_sep (join_sep comps) = comps"
proof (induction comps)
  case Nil
  then show ?case by simp
next
  case (Cons c comps)
  show ?case
  proof (cases "comps = []")
    case True
    with Cons.prems show ?thesis by (simp add: split_sep_def split_chr_no_delim)
  next
    case False
    with Cons show ?thesis
      by (simp add: join_sep_Cons split_sep_def split_chr_append)
  qed
qed

lemma comps_of_join: "list_all wf_comp comps \<Longrightarrow> comps_of (join_sep comps) = comps"
proof (cases "comps = []")
  case True
  then show ?thesis by (simp add: comps_of_def split_sep_def)
next
  case False
  assume wf: "list_all wf_comp comps"
  then have "list_all (\<lambda>c. sep \<notin> set c) comps"
    by (simp add: list_all_iff wf_comp_def)
  with False have "split_sep (join_sep comps) = comps" by (rule split_join)
  moreover have "filter (\<lambda>x. x \<noteq> [] \<and> x \<noteq> dot) comps = comps"
    using wf by (simp add: list_all_iff wf_comp_def)
  ultimately show ?thesis by (simp add: comps_of_def)
qed

lemma comps_of_wf: "list_all wf_comp (comps_of s)"
  by (auto simp: comps_of_def list_all_iff wf_comp_def split_sep_def dest: split_chr_pieces)

lemma comps_of_sep: "comps_of (sep # s) = comps_of s"
  by (simp add: comps_of_def split_sep_def)

lemma comps_of_lstrip: "comps_of (lstrip_sep s) = comps_of s"
  by (induction s) (auto simp: lstrip_sep_def lstrip_chr_def comps_of_sep)

subsection \<open>Parsing and rendering\<close>

text \<open>
  Parsing one string yields its root and its components, a well-formed path; rendering a
  well-formed path and parsing the result gives the path back.
\<close>

lemma parse_step:
  "(if sep \<in> set rel
    then parsed @ filter (\<lambda>x. x \<noteq> [] \<and> x \<noteq> dot) (rev (split_sep rel))
    else if rel \<noteq> [] \<and> rel \<noteq> dot then parsed @ [rel] else parsed)
   = parsed @ rev (comps_of rel)"
  by (auto simp: comps_of_def rev_filter split_sep_def split_chr_no_delim)

lemma parse_loop_Cons:
  "parse_loop (part # it) parsed =
     (if fst (splitroot part) \<noteq> [] then (fst (splitroot part), parsed @ rev (comps_of (snd (splitroot part))))
      else parse_loop it (parsed @ rev (comps_of (snd (splitroot part)))))"
proof (cases "part = []")
  case True
  then show ?thesis by (simp add: splitroot_def comps_of_def split_sep_def)
next
  case False
  then show ?thesis
    by (simp only: parse_loop.simps parse_step Let_def split: prod.split) auto
qed

lemma parse_parts_single:
  "parse_parts [s] =
     (fst (splitroot s),
      (if fst (splitroot s) \<noteq> [] then [fst (splitroot s)] else []) @ comps_of (snd (splitroot s)))"
  by (simp add: parse_parts_def parse_loop_Cons del: parse_loop.simps(2))

lemma lstrip_sep_length: "length (lstrip_sep s) \<le> length s"
  by (simp add: lstrip_sep_def lstrip_chr_def length_dropWhile_le)

lemma splitroot_wf: "wf_root (fst (splitroot s))"
  by (simp add: splitroot_def wf_root_def Let_def)

lemma splitroot_rel: "snd (splitroot s) = lstrip_sep s"
  by (cases s) (auto simp: splitroot_def Let_def lstrip_sep_def lstrip_chr_def)

lemma splitroot_no_sep: "s = [] \<or> hd s \<noteq> sep \<Longrightarrow> splitroot s = ([], s)"
  by (auto simp: splitroot_def)

lemma splitroot_one: "t = [] \<or> hd t \<noteq> sep \<Longrightarrow> splitroot (sep # t) = ([sep], t)"
  by (cases t) (auto simp: splitroot_def lstrip_sep_def lstrip_chr_def Let_def)

lemma splitroot_two: "t = [] \<or> hd t \<noteq> sep \<Longrightarrow> splitroot (sep # sep # t) = ([sep, sep], t)"
  by (cases t) (auto simp: splitroot_def lstrip_sep_def lstrip_chr_def Let_def)

lemma splitroot_root:
  "wf_root r \<Longrightarrow> t = [] \<or> hd t \<noteq> sep \<Longrightarrow> splitroot (r @ t) = (r, t)"
  unfolding wf_root_def
  using splitroot_no_sep splitroot_one splitroot_two by auto

lemma join_sep_hd: "list_all wf_comp comps \<Longrightarrow> join_sep comps = [] \<or> hd (join_sep comps) \<noteq> sep"
proof (cases comps)
  case Nil
  then show ?thesis by simp
next
  case (Cons c cs)
  assume "list_all wf_comp comps"
  with Cons have c: "c \<noteq> []" "sep \<notin> set c" by (auto simp: wf_comp_def)
  then have "hd c \<noteq> sep" by (cases c) auto
  with c Cons show ?thesis by (cases cs) auto
qed

lemma join_sep_empty: "list_all wf_comp comps \<Longrightarrow> join_sep comps = [] \<Longrightarrow> comps = []"
proof (cases comps)
  case Nil
  then show ?thesis by simp
next
  case (Cons c cs)
  assume "list_all wf_comp comps" "join_sep comps = []"
  with Cons show ?thesis by (cases cs) (auto simp: wf_comp_def)
qed

lemma comps_of_lstrip2: "comps_of (snd (splitroot s)) = comps_of s"
  by (simp add: splitroot_rel comps_of_lstrip)

lemma Path_str_eq:
  "Path_str s =
     \<lparr>p_root = fst (splitroot s),
      p_parts = (if fst (splitroot s) \<noteq> [] then [fst (splitroot s)] else []) @ comps_of s\<rparr>"
  by (simp add: Path_str_def parse_parts_single from_parsed_parts_def comps_of_lstrip2)

lemma Path_str_root: "p_root (Path_str s) = fst (splitroot s)"
  by (simp add: Path_str_eq)

lemma Path_str_components: "components (Path_str s) = comps_of s"
  by (simp add: Path_str_eq components_def)

lemma Path_str_parts:
  "p_parts (Path_str s) =
     (if fst (splitroot s) \<noteq> [] then fst (splitroot s) # comps_of s else comps_of s)"
  by (simp add: Path_str_eq)

lemma wf_Path_str: "wf_path (Path_str s)"
  unfolding wf_path_def Path_str_root Path_str_components Path_str_parts
  using splitroot_wf [of s] comps_of_wf [of s] by simp

lemma format_components:
  "format_parsed_parts (p_root p) (p_parts p) = p_root p @ join_sep (components p)"
  by (simp add: format_parsed_parts_def components_def)

lemma Path_str_format:
  assumes "wf_path p"
  shows "Path_str (p_root p @ join_sep (components p)) = p"
proof -
  let ?r = "p_root p" and ?cs = "components p"
  from assms have r: "wf_root ?r" and cs: "list_all wf_comp ?cs"
    and ps: "p_parts p = (if ?r \<noteq> [] then ?r # ?cs else ?cs)"
    by (simp_all add: wf_path_def)
  have sr: "splitroot (?r @ join_sep ?cs) = (?r, join_sep ?cs)"
    using r join_sep_hd [OF cs] by (rule splitroot_root)
  have "comps_of (?r @ join_sep ?cs) = comps_of (snd (splitroot (?r @ join_sep ?cs)))"
    by (simp add: comps_of_lstrip2)
  also have "\<dots> = ?cs" using sr cs by (simp add: comps_of_join)
  finally have "comps_of (?r @ join_sep ?cs) = ?cs" .
  with sr ps show ?thesis by (simp add: Path_str_eq)
qed

lemma Path_str_dot: "Path_str dot = \<lparr>p_root = [], p_parts = []\<rparr>"
  by (simp add: Path_str_eq dot_def splitroot_def sep_def comps_of_def split_sep_def)

lemma Path_str_str_path:
  assumes "wf_path p"
  shows "Path_str (str_path p) = p"
proof (cases "p_root p @ join_sep (components p) = []")
  case True
  with assms have "p_root p = []" "components p = []"
    by (auto simp: wf_path_def dest: join_sep_empty)
  with assms have "p = \<lparr>p_root = [], p_parts = []\<rparr>" by (simp add: wf_path_def)
  moreover have "format_parsed_parts (p_root p) (p_parts p) = []"
    using format_components [of p] True by simp
  then have "str_path p = dot" by (simp add: str_path_def)
  ultimately show ?thesis by (simp add: Path_str_dot)
next
  case False
  with format_components [of p] have "str_path p = p_root p @ join_sep (components p)"
    by (simp add: str_path_def)
  with assms show ?thesis by (simp add: Path_str_format)
qed

lemma Path_PyStr: "Path [PyStr s] = Inr (Path_str s)"
  by (simp add: Path_def parse_args_def Path_str_def split: prod.split)

subsection \<open>Normalisation depends on the parsed path only\<close>

text \<open>
  \<^verbatim>\<open>normpath\<close> reads its argument through the number of initial slashes and the components
  that are neither empty nor \<^verbatim>\<open>.\<close>, which is what parsing keeps.
\<close>

lemma normpath_loop_filter:
  "normpath_loop (filter (\<lambda>x. x \<noteq> [] \<and> x \<noteq> dot) comps) i acc = normpath_loop comps i acc"
  by (induction comps arbitrary: acc) simp_all

lemma normpath_alt:
  "normpath s =
     (let i = initial_slashes s;
          path' = join_sep (normpath_loop (comps_of s) i []);
          path'' = (if i \<noteq> 0 then replicate i sep @ path' else path')
      in if path'' \<noteq> [] then path'' else dot)"
proof (cases "s = []")
  case True
  then show ?thesis
    by (simp add: normpath_def initial_slashes_def startswith_def comps_of_def split_sep_def)
next
  case False
  then show ?thesis
    by (simp add: normpath_def comps_of_def normpath_loop_filter)
qed

lemma initial_slashes_splitroot: "initial_slashes s = length (fst (splitroot s))"
proof (cases s)
  case Nil
  then show ?thesis by (simp add: initial_slashes_def startswith_def splitroot_def)
next
  case s1: (Cons c t)
  show ?thesis
  proof (cases "c = sep")
    case False
    with s1 show ?thesis by (simp add: initial_slashes_def startswith_def splitroot_def)
  next
    case c: True
    show ?thesis
    proof (cases t)
      case Nil
      with s1 c show ?thesis
        by (simp add: initial_slashes_def startswith_def splitroot_def lstrip_sep_def lstrip_chr_def)
    next
      case s2: (Cons d u)
      show ?thesis
      proof (cases "d = sep")
        case False
        with s1 c s2 show ?thesis
          by (simp add: initial_slashes_def startswith_def splitroot_def lstrip_sep_def lstrip_chr_def)
      next
        case d: True
        show ?thesis
        proof (cases u)
          case Nil
          with s1 c s2 d show ?thesis
            by (simp add: initial_slashes_def startswith_def splitroot_def lstrip_sep_def lstrip_chr_def)
        next
          case s3: (Cons e v)
          show ?thesis
          proof (cases "e = sep")
            case False
            with s1 c s2 d s3 show ?thesis
              by (simp add: initial_slashes_def startswith_def splitroot_def lstrip_sep_def lstrip_chr_def)
          next
            case True
            have "length (dropWhile (\<lambda>c. c = sep) v) \<le> length v" by (rule length_dropWhile_le)
            with True s1 c s2 d s3 show ?thesis
              by (simp add: initial_slashes_def startswith_def splitroot_def lstrip_sep_def lstrip_chr_def Let_def)
          qed
        qed
      qed
    qed
  qed
qed

lemma normpath_same_path:
  assumes "Path_str s = Path_str t"
  shows "normpath s = normpath t"
proof -
  from assms have "p_root (Path_str s) = p_root (Path_str t)"
    and "components (Path_str s) = components (Path_str t)" by simp_all
  then have "initial_slashes s = initial_slashes t" and "comps_of s = comps_of t"
    by (simp_all add: Path_str_root Path_str_components initial_slashes_splitroot)
  then show ?thesis by (simp add: normpath_alt)
qed

lemma normpath_str_path: "normpath (str_path (Path_str s)) = normpath s"
  by (rule normpath_same_path) (simp add: Path_str_str_path wf_Path_str)

lemma wf_parts_inj:
  assumes "wf_path p" and "wf_path q" and "p_parts p = p_parts q"
  shows "p = q"
proof -
  have root: "p_root x = (if p_parts x \<noteq> [] \<and> sep \<in> set (hd (p_parts x)) then hd (p_parts x) else [])"
    if "wf_path x" for x
  proof (cases "p_root x = []")
    case True
    with that have "list_all wf_comp (p_parts x)" by (simp add: wf_path_def components_def)
    then have "p_parts x \<noteq> [] \<Longrightarrow> sep \<notin> set (hd (p_parts x))"
      by (cases "p_parts x") (auto simp: wf_comp_def)
    with True show ?thesis by auto
  next
    case False
    with that have "p_parts x \<noteq> []" "hd (p_parts x) = p_root x" "sep \<in> set (p_root x)"
      by (auto simp: wf_path_def wf_root_def)
    then show ?thesis by simp
  qed
  from root [OF assms(1)] root [OF assms(2)] assms(3) have "p_root p = p_root q" by simp
  with assms(3) show ?thesis by simp
qed

subsection \<open>Name and parent of a well-formed path\<close>

text \<open>
  The name is the last component and the parent drops it; parsing the parent's string
  and the name together gives the path back.
\<close>

lemma mk_path_sel [simp]:
  "p_root (mk_path r cs) = r" "components (mk_path r cs) = cs"
  "p_parts (mk_path r cs) = (if r \<noteq> [] then r # cs else cs)"
  by (simp_all add: mk_path_def components_def)

lemma wf_mk_path [simp]: "wf_path (mk_path r cs) = (wf_root r \<and> list_all wf_comp cs)"
  by (simp add: wf_path_def)

lemma wf_path_mk: "wf_path p \<Longrightarrow> p = mk_path (p_root p) (components p)"
  by (simp add: wf_path_def mk_path_def)

lemma Path_str_mk: "Path_str s = mk_path (fst (splitroot s)) (comps_of s)"
  by (simp add: Path_str_eq mk_path_def)

lemma name_mk: "Path_name (mk_path r cs) = (if cs = [] then [] else last cs)"
  by (simp add: Path_name_def)

lemma parent_mk:
  "Path_parent (mk_path r cs) = (if cs = [] then mk_path r cs else mk_path r (butlast cs))"
  by (auto simp: Path_parent_def from_parsed_parts_def mk_path_def)

lemma str_mk:
  "str_path (mk_path r cs) = (if r @ join_sep cs = [] then dot else r @ join_sep cs)"
  using format_components [of "mk_path r cs"] by (simp add: str_path_def)

lemma list_all_butlast: "list_all P xs \<Longrightarrow> list_all P (butlast xs)"
  by (auto simp: list_all_iff dest: in_set_butlastD)

lemma wf_parent: "wf_path p \<Longrightarrow> wf_path (Path_parent p)"
  using wf_path_mk [of p] by (metis parent_mk wf_mk_path list_all_butlast)

lemma comps_of_comp: "wf_comp c \<Longrightarrow> comps_of c = [c]"
  by (simp add: comps_of_def split_sep_def split_chr_no_delim wf_comp_def)

lemma splitroot_comp: "wf_comp c \<Longrightarrow> splitroot c = ([], c)"
  by (cases c) (auto simp: splitroot_def wf_comp_def)

lemma parse_parts_pair:
  assumes "b = [] \<or> wf_comp b"
  shows "parse_parts [d, b] =
     (fst (splitroot d),
      (if fst (splitroot d) \<noteq> [] then [fst (splitroot d)] else []) @ comps_of d
        @ (if b = [] then [] else [b]))"
proof -
  have b: "fst (splitroot b) = []" "comps_of b = (if b = [] then [] else [b])"
  proof -
    show "fst (splitroot b) = []"
      using assms by (auto simp: splitroot_comp) (simp add: splitroot_def)
    show "comps_of b = (if b = [] then [] else [b])"
    proof (cases "b = []")
      case True
      then show ?thesis by (simp add: comps_of_def split_sep_def)
    next
      case False
      with assms have "wf_comp b" by simp
      with False show ?thesis by (simp add: comps_of_comp)
    qed
  qed
  show ?thesis
    by (simp add: parse_parts_def parse_loop_Cons b comps_of_lstrip2 del: parse_loop.simps(2))
qed

lemma Path_dirname_basename:
  "Path [PyStr (dirname s), PyStr (basename s)] = Inr (Path_str s)"
proof -
  let ?r = "fst (splitroot s)" and ?cs = "comps_of s"
  have p: "Path_str s = mk_path ?r ?cs" by (rule Path_str_mk)
  have wf: "wf_root ?r" "list_all wf_comp ?cs" by (simp_all add: splitroot_wf comps_of_wf)
  let ?d = "dirname s" and ?b = "basename s"
  have b: "?b = (if ?cs = [] then [] else last ?cs)" by (simp add: basename_def p name_mk)
  have bwf: "?b = [] \<or> wf_comp ?b"
    using wf(2) b by (auto simp: list_all_iff)
  have wfp: "wf_path (Path_parent (Path_str s))" by (simp add: wf_parent wf_Path_str)
  have "Path_str ?d = Path_parent (Path_str s)"
    unfolding dirname_def using wfp by (rule Path_str_str_path)
  then have d: "Path_str ?d = (if ?cs = [] then mk_path ?r ?cs else mk_path ?r (butlast ?cs))"
    by (simp add: p parent_mk)
  have dr: "fst (splitroot ?d) = ?r"
    using d Path_str_root [of ?d] by (simp split: if_splits)
  have dc: "comps_of ?d = (if ?cs = [] then [] else butlast ?cs)"
    using d Path_str_components [of ?d] by (simp split: if_splits)
  have tail: "comps_of ?d @ (if ?b = [] then [] else [?b]) = ?cs"
  proof (cases "?cs = []")
    case True
    with dc b show ?thesis by simp
  next
    case False
    with wf(2) b have "?b \<noteq> []" by (auto simp: list_all_iff wf_comp_def)
    with False dc b show ?thesis by simp
  qed
  have "parse_parts [?d, ?b] =
      (fst (splitroot ?d),
       (if fst (splitroot ?d) \<noteq> [] then [fst (splitroot ?d)] else []) @ comps_of ?d
         @ (if ?b = [] then [] else [?b]))"
    by (rule parse_parts_pair [OF bwf])
  also have "\<dots> = (?r, (if ?r \<noteq> [] then [?r] else []) @ ?cs)"
    unfolding tail dr ..
  finally have "parse_parts [?d, ?b] = (?r, (if ?r \<noteq> [] then [?r] else []) @ ?cs)" .
  then show ?thesis
    by (simp add: Path_def parse_args_def from_parsed_parts_def Path_str_eq)
qed

subsection \<open>Construction, rendering and equality\<close>

lemma RoadPath_init_PyStr: "RoadPath_init (PyStr s) = Inr (RoadPath (Path_str s))"
  by (simp add: RoadPath_init_def Path_PyStr and_then_def)

lemma str_RoadPath_eq: "str_RoadPath s = Inr (str_path (Path_str s))"
  by (simp add: str_RoadPath_def RoadPath_init_PyStr and_then_def RoadPath_str_def)

lemma str_path_inj:
  assumes "wf_path p" and "wf_path q" and "str_path p = str_path q"
  shows "p = q"
proof -
  have "p = Path_str (str_path p)" using assms(1) by (simp add: Path_str_str_path)
  also have "\<dots> = Path_str (str_path q)" using assms(3) by simp
  also have "\<dots> = q" using assms(2) by (simp add: Path_str_str_path)
  finally show ?thesis .
qed

lemma RoadPath_str_eq_parts:
  "RoadPath_str_eq s t = Inr (p_parts (Path_str s) = p_parts (Path_str t))"
  by (simp add: RoadPath_str_eq_def RoadPath_init_PyStr and_then_def RoadPath_eq_def path_eq_def)

lemma parts_eq_iff_str_eq:
  "(p_parts (Path_str s) = p_parts (Path_str t)) = (str_path (Path_str s) = str_path (Path_str t))"
  using wf_parts_inj [OF wf_Path_str wf_Path_str, of s t]
        str_path_inj [OF wf_Path_str wf_Path_str, of s t] by auto

subsection \<open>Replacing the suffix\<close>

text \<open>
  \<^verbatim>\<open>with_suffix("")\<close> cuts the name where \<^verbatim>\<open>suffix\<close> starts, so the new name followed by the
  suffix is the old name.
\<close>

lemma join_sep_snoc: "join_sep (xs @ [a]) @ b = join_sep (xs @ [a @ b])"
proof (induction xs)
  case Nil
  then show ?case by simp
next
  case (Cons x xs)
  then show ?case by (simp add: join_sep_Cons)
qed

lemma join_sep_snoc_nonempty: "a \<noteq> [] \<Longrightarrow> join_sep (xs @ [a]) \<noteq> []"
  by (cases xs) (simp_all add: join_sep_Cons)

lemma suffix_split:
  assumes "Path_name p \<noteq> []"
  defines "old \<equiv> Path_suffix p"
  defines "new \<equiv> (if old = [] then Path_name p @ []
                  else take (length (Path_name p) - length old) (Path_name p) @ [])"
  shows "new @ old = Path_name p" and "new \<noteq> []"
proof -
  let ?n = "Path_name p" and ?i = "rfind_dot (Path_name p)"
  show "new @ old = ?n"
  proof (cases "0 < ?i \<and> ?i < int (length ?n) - 1")
    case True
    then have o: "old = drop (nat ?i) ?n" by (simp add: old_def Path_suffix_def Let_def)
    from True have "nat ?i < length ?n" by linarith
    with o True have "old \<noteq> []" "length ?n - length old = nat ?i" by auto
    with o show ?thesis by (simp add: new_def)
  next
    case False
    then have "old = []" by (auto simp: old_def Path_suffix_def Let_def)
    then show ?thesis by (simp add: new_def)
  qed
  show "new \<noteq> []"
  proof (cases "0 < ?i \<and> ?i < int (length ?n) - 1")
    case True
    then have o: "old = drop (nat ?i) ?n" by (simp add: old_def Path_suffix_def Let_def)
    from True have "nat ?i < length ?n" "0 < nat ?i" by linarith+
    with o have "old \<noteq> []" "length ?n - length old = nat ?i" by auto
    with \<open>0 < nat ?i\<close> assms(1) show ?thesis by (simp add: new_def)
  next
    case False
    then have "old = []" by (auto simp: old_def Path_suffix_def Let_def)
    with assms(1) show ?thesis by (simp add: new_def)
  qed
qed

lemma with_suffix_empty_name:
  "Path_name p = [] \<Longrightarrow> Path_with_suffix p [] = Inl ValueError"
  by (simp add: Path_with_suffix_def)

lemma with_suffix_mk:
  assumes "cs \<noteq> []" and "last cs \<noteq> []"
  shows "\<exists>new. Path_with_suffix (mk_path r cs) [] = Inr (mk_path r (butlast cs @ [new]))
           \<and> new @ Path_suffix (mk_path r cs) = last cs \<and> new \<noteq> []"
proof -
  let ?p = "mk_path r cs"
  have n: "Path_name ?p = last cs" "Path_name ?p \<noteq> []" using assms by (simp_all add: name_mk)
  let ?old = "Path_suffix ?p"
  let ?new = "(if ?old = [] then Path_name ?p @ []
               else take (length (Path_name ?p) - length ?old) (Path_name ?p) @ [])"
  have bl: "butlast (p_parts ?p) = (if r \<noteq> [] then r # butlast cs else butlast cs)"
    using assms(1) by simp
  have "Path_with_suffix ?p [] = Inr (from_parsed_parts r (butlast (p_parts ?p) @ [?new]))"
    using n(2) by (simp add: Path_with_suffix_def Let_def dot_def)
  also have "from_parsed_parts r (butlast (p_parts ?p) @ [?new]) = mk_path r (butlast cs @ [?new])"
    unfolding bl by (simp add: from_parsed_parts_def mk_path_def)
  finally have "Path_with_suffix ?p [] = Inr (mk_path r (butlast cs @ [?new]))" .
  moreover have "?new @ ?old = last cs" "?new \<noteq> []"
    using suffix_split [OF n(2)] n(1) by simp_all
  ultimately show ?thesis by blast
qed

lemma splitext_ok:
  assumes "basename s \<noteq> []"
  shows "\<exists>r e. splitext s = Inr (r, e) \<and> r @ e = str_path (Path_str s)"
proof -
  let ?r = "fst (splitroot s)" and ?cs = "comps_of s"
  have p: "Path_str s = mk_path ?r ?cs" by (rule Path_str_mk)
  have wf: "list_all wf_comp ?cs" by (rule comps_of_wf)
  from assms have cs: "?cs \<noteq> []" "last ?cs \<noteq> []"
    by (auto simp: basename_def p name_mk split: if_splits)
  from with_suffix_mk [OF cs, of ?r] obtain new where
    ws: "Path_with_suffix (mk_path ?r ?cs) [] = Inr (mk_path ?r (butlast ?cs @ [new]))"
    and nw: "new @ Path_suffix (mk_path ?r ?cs) = last ?cs" "new \<noteq> []" by blast
  let ?e = "Path_suffix (mk_path ?r ?cs)"
  have root: "str_path (mk_path ?r (butlast ?cs @ [new])) = ?r @ join_sep (butlast ?cs @ [new])"
    using join_sep_snoc_nonempty [OF nw(2), of "butlast ?cs"] by (simp add: str_mk)
  have "join_sep ?cs \<noteq> []" using cs(1) join_sep_empty [OF wf] by blast
  then have whole: "str_path (mk_path ?r ?cs) = ?r @ join_sep ?cs" by (simp add: str_mk)
  have "join_sep (butlast ?cs @ [new]) @ ?e = join_sep (butlast ?cs @ [new @ ?e])"
    by (rule join_sep_snoc)
  also have "\<dots> = join_sep ?cs" using nw(1) cs(1) by simp
  finally have cat: "str_path (mk_path ?r (butlast ?cs @ [new])) @ ?e = str_path (Path_str s)"
    by (simp add: root whole p)
  have "splitext s = Inr (str_path (mk_path ?r (butlast ?cs @ [new])), ?e)"
    by (simp add: splitext_def Let_def p ws and_then_def)
  with cat show ?thesis by blast
qed

subsection \<open>Parsing what was parsed, and relative paths\<close>

text \<open>
  The parts of a well-formed path parse to themselves, so wrapping such a path again
  changes nothing; \<^verbatim>\<open>relative_to\<close> between well-formed paths succeeds exactly on equal
  roots and a prefix of components.
\<close>

lemma parse_loop_comps:
  "list_all wf_comp xs \<Longrightarrow> parse_loop (xs @ rest) acc = parse_loop rest (acc @ xs)"
proof (induction xs arbitrary: acc)
  case Nil
  then show ?case by simp
next
  case (Cons x xs)
  then have x: "wf_comp x" and xs: "list_all wf_comp xs" by simp_all
  have "parse_loop ((x # xs) @ rest) acc = parse_loop (xs @ rest) (acc @ [x])"
    using x by (simp add: parse_loop_Cons splitroot_comp comps_of_comp del: parse_loop.simps(2))
  with Cons.IH [OF xs] show ?case by simp
qed

lemma parse_loop_root:
  "wf_root r \<Longrightarrow> r \<noteq> [] \<Longrightarrow> parse_loop [r] acc = (r, acc)"
  using splitroot_root [of r "[]"]
  by (simp add: parse_loop_Cons comps_of_def split_sep_def del: parse_loop.simps(2))

lemma parse_parts_wf:
  assumes "wf_root r" and "list_all wf_comp cs"
  shows "parse_parts (p_parts (mk_path r cs)) = (r, p_parts (mk_path r cs))"
proof -
  have rv: "list_all wf_comp (rev cs)" using assms(2) by (simp add: list_all_iff)
  show ?thesis
  proof (cases "r = []")
    case True
    with parse_loop_comps [OF rv, of "[]" "[]"] show ?thesis by (simp add: parse_parts_def)
  next
    case False
    with parse_loop_comps [OF rv, of "[r]" "[]"] parse_loop_root [OF assms(1) False, of "rev cs"]
    show ?thesis by (simp add: parse_parts_def)
  qed
qed

lemma Path_PyPath:
  assumes "wf_path q"
  shows "Path [PyPath q] = Inr q"
proof -
  from assms have q: "q = mk_path (p_root q) (components q)" by (rule wf_path_mk)
  from assms have "parse_parts (p_parts (mk_path (p_root q) (components q)))
      = (p_root q, p_parts (mk_path (p_root q) (components q)))"
    by (intro parse_parts_wf) (simp_all add: wf_path_def)
  with q have "parse_parts (p_parts q) = (p_root q, p_parts q)" by simp
  then show ?thesis by (simp add: Path_def parse_args_def from_parsed_parts_def)
qed

lemma RoadPath_init_PyPath: "wf_path q \<Longrightarrow> RoadPath_init (PyPath q) = Inr (RoadPath q)"
  by (simp add: RoadPath_init_def Path_PyPath and_then_def)

lemma take_prefix: "(take (length xs) ys = xs) = prefix xs ys"
  by (metis append_eq_conv_conj prefix_def)

lemma relative_to_parsed:
  assumes r: "wf_root r" and cs: "list_all wf_comp cs"
    and rb: "wf_root rb" and cb: "list_all wf_comp cb"
    and pa: "parse_args [other] = Inr (rb, p_parts (mk_path rb cb))"
  shows "Path_relative_to (mk_path r cs) other =
     (if r = rb \<and> prefix cb cs then Inr (mk_path [] (drop (length cb) cs)) else Inl ValueError)"
proof -
  have hd_cs: "cs \<noteq> [] \<Longrightarrow> hd cs \<noteq> []" using cs by (cases cs) (auto simp: wf_comp_def)
  have hd_cb: "cb \<noteq> [] \<Longrightarrow> hd cb \<noteq> []" using cb by (cases cb) (auto simp: wf_comp_def)
  show ?thesis
  proof (cases "rb = []")
    case rb0: True
    show ?thesis
    proof (cases "r = []")
      case True
      with rb0 pa show ?thesis
        by (cases cb)
           (auto simp: Path_relative_to_def abs_parts_def Let_def from_parsed_parts_def mk_path_def
                 take_prefix [symmetric])
    next
      case False
      have "take (length cb) ([] # r # cs) \<noteq> cb" if "cb \<noteq> []"
        using that hd_cb by (cases cb) auto
      with False rb0 pa show ?thesis
        by (auto simp: Path_relative_to_def abs_parts_def Let_def)
    qed
  next
    case rb1: False
    show ?thesis
    proof (cases "r = []")
      case True
      have "take (Suc (Suc (length cb))) cs \<noteq> [] # rb # cb"
        using hd_cs by (cases cs) auto
      with True rb1 pa show ?thesis
        by (auto simp: Path_relative_to_def abs_parts_def Let_def)
    next
      case False
      with rb1 pa show ?thesis
        by (auto simp: Path_relative_to_def abs_parts_def Let_def from_parsed_parts_def mk_path_def
              take_prefix [symmetric])
    qed
  qed
qed

lemma parse_args_base:
  assumes "base \<in> {PyStr t, PyPath (Path_str t)}"
  shows "parse_args [base] =
    Inr (fst (splitroot t), p_parts (mk_path (fst (splitroot t)) (comps_of t)))"
proof -
  have wf: "wf_root (fst (splitroot t))" "list_all wf_comp (comps_of t)"
    by (simp_all add: splitroot_wf comps_of_wf)
  have a: "parse_args [PyStr t] = Inr (fst (splitroot t), p_parts (mk_path (fst (splitroot t)) (comps_of t)))"
    by (simp add: parse_args_def parse_parts_single comps_of_lstrip2)
  have b: "parse_args [PyPath (Path_str t)] = Inr (fst (splitroot t), p_parts (mk_path (fst (splitroot t)) (comps_of t)))"
    using parse_parts_wf [OF wf] by (simp add: parse_args_def Path_str_mk)
  from assms a b show ?thesis by auto
qed

lemma relative_to_str:
  assumes "base \<in> {PyStr t, PyPath (Path_str t)}"
  shows "Path_relative_to (Path_str s) base =
     (if lexical_descendant (Path_str s) (Path_str t)
      then Inr (mk_path [] (drop (length (components (Path_str t))) (components (Path_str s))))
      else Inl ValueError)"
  unfolding Path_str_mk [of s]
  by (subst relative_to_parsed [OF _ _ _ _ parse_args_base [OF assms]])
     (simp_all add: splitroot_wf comps_of_wf lexical_descendant_def Path_str_mk)

lemma relative_against:
  "relative pf p (Some b) =
     (if b \<noteq> [] then
        (if lexical_descendant (Path_str p) (Path_str b)
         then Inr (str_path (mk_path [] (drop (length (components (Path_str b)))
                                          (components (Path_str p)))))
         else Inl (Builtin ValueError))
      else relative pf p None)"
  by (simp add: relative_def and_then_def relative_to_str [of "PyStr b" b] del: mk_path_sel)

lemma relative_cwd:
  "relative pf p None =
     (case os_getcwd pf of
        Inl e \<Rightarrow> Inl (Builtin e)
      | Inr cwd \<Rightarrow>
          (if lexical_descendant (Path_str p) (Path_str cwd)
           then Inr (str_path (mk_path [] (drop (length (components (Path_str cwd)))
                                            (components (Path_str p)))))
           else Inl (Builtin ValueError)))"
  by (cases "os_getcwd pf")
     (simp_all add: relative_def and_then_def relative_to_str [of "PyStr _" ] del: mk_path_sel)

subsection \<open>Every constructed path is well formed\<close>

text \<open>Whatever strings are parsed, the result is well formed.\<close>

lemma parse_loop_wf:
  "list_all wf_comp acc \<Longrightarrow>
   wf_root (fst (parse_loop it acc)) \<and> list_all wf_comp (snd (parse_loop it acc))"
proof (induction it arbitrary: acc)
  case Nil
  then show ?case by (simp add: wf_root_def)
next
  case (Cons part it)
  let ?acc = "acc @ rev (comps_of (snd (splitroot part)))"
  have acc: "list_all wf_comp ?acc"
    using Cons.prems comps_of_wf [of "snd (splitroot part)"] by (auto simp: list_all_iff)
  show ?case
  proof (cases "fst (splitroot part) = []")
    case True
    with Cons.IH [OF acc] show ?thesis
      by (simp add: parse_loop_Cons del: parse_loop.simps(2))
  next
    case False
    with acc splitroot_wf [of part] show ?thesis
      by (simp add: parse_loop_Cons del: parse_loop.simps(2))
  qed
qed

lemma parse_parts_wf_out:
  "\<exists>r cs. wf_root r \<and> list_all wf_comp cs \<and> parse_parts ps = (r, p_parts (mk_path r cs))"
proof -
  obtain r parsed where pl: "parse_loop (rev ps) [] = (r, parsed)" by (cases "parse_loop (rev ps) []")
  with parse_loop_wf [of "[]" "rev ps"] have "wf_root r" "list_all wf_comp (rev parsed)"
    by (simp_all add: list_all_iff)
  moreover from pl have "parse_parts ps = (r, p_parts (mk_path r (rev parsed)))"
    by (simp add: parse_parts_def)
  ultimately show ?thesis by blast
qed

lemma collect_args_strs: "collect_args (map PyStr ps) acc = Inr (acc @ ps)"
  by (induction ps arbitrary: acc) simp_all

lemma Path_strs: "\<exists>q. wf_path q \<and> Path (map PyStr ps) = Inr q"
proof -
  from parse_parts_wf_out [of ps] obtain r cs where
    "wf_root r" "list_all wf_comp cs" "parse_parts ps = (r, p_parts (mk_path r cs))" by blast
  then have "wf_path (mk_path r cs)" and "Path (map PyStr ps) = Inr (mk_path r cs)"
    by (simp, simp add: Path_def parse_args_def collect_args_strs from_parsed_parts_def mk_path_def)
  then show ?thesis by blast
qed

lemma build_ok:
  "\<exists>q. Path (map PyStr (b_parts b)) = Inr q \<and> PathBuilder_build b = Inr (RoadPath q)"
proof -
  from Path_strs [of "b_parts b"] obtain q where
    q: "wf_path q" "Path (map PyStr (b_parts b)) = Inr q" by blast
  then have "PathBuilder_build b = Inr (RoadPath q)"
    by (simp add: PathBuilder_build_def and_then_def RoadPath_init_PyPath)
  with q show ?thesis by blast
qed

subsection \<open>The module's exception is never the outcome\<close>

lemma np_propagate: "\<not> raises_PathError (propagate m)"
  by (cases m) (simp_all add: raises_PathError_def)

lemma np_Inr: "\<not> raises_PathError (Inr v)"
  by (simp add: raises_PathError_def)

lemma np_and_then:
  "\<not> raises_PathError m \<Longrightarrow> (\<And>v. \<not> raises_PathError (f v)) \<Longrightarrow> \<not> raises_PathError (and_then m f)"
  by (cases m) (simp_all add: raises_PathError_def and_then_def)

lemma np_init: "\<not> raises_PathError (RoadPath_init x)"
  by (cases x) (simp_all add: RoadPath_init_def np_and_then np_propagate np_Inr)

lemma np_each: "\<not> raises_PathError (RoadPath_each ps)"
  by (induction ps) (simp_all add: np_and_then np_init np_Inr)

lemmas np = np_propagate np_Inr np_and_then np_init np_each

subsection \<open>Claims on dispatch and composition\<close>

text \<open>
  C8: for every path string \<open>p\<close>, \<^verbatim>\<open>expand(p)\<close> is \<^verbatim>\<open>expandvars(expanduser(p))\<close>: the
  user expansion is applied first, the substitution of environment variables second, each
  being the platform's primitive.
\<close>

theorem expand_user_then_vars:
  "expand pf p = expandvars pf (expanduser pf p) \<and>
   expand pf p = os_expandvars pf (os_expanduser pf p)"
  by (simp add: expand_def expandvars_def expanduser_def)

text \<open>
  C9: for every \<^verbatim>\<open>RoadPath\<close> \<open>p\<close> and every object \<open>x\<close> that is not a string, a \<^verbatim>\<open>Path\<close>
  or a \<^verbatim>\<open>RoadPath\<close>, the test \<^verbatim>\<open>p == x\<close> returns \<^verbatim>\<open>False\<close> and does not raise.
\<close>

theorem eq_foreign_is_False:
  "(\<forall>s. x \<noteq> PyStr s) \<Longrightarrow> (\<forall>q. x \<noteq> PyPath q) \<Longrightarrow> (\<forall>r. x \<noteq> PyRoadPath r) \<Longrightarrow>
   RoadPath_eq p x = Inr False"
  by (cases x) (simp_all add: RoadPath_eq_def)

theorem eq_foreign_is_False_witness:
  "(\<forall>s. PyInt 7 \<noteq> PyStr s) \<and> (\<forall>q. PyInt 7 \<noteq> PyPath q) \<and> (\<forall>r. PyInt 7 \<noteq> PyRoadPath r) \<and>
   RoadPath_eq (RoadPath (Path_str ''/a/b'')) (PyInt 7) = Inr False"
  using eq_foreign_is_False [of "PyInt 7" "RoadPath (Path_str ''/a/b'')"] by simp

text \<open>
  C10: \<^verbatim>\<open>relative(path, base)\<close> takes the working directory also when \<^verbatim>\<open>base\<close> is the
  empty string.  \<^verbatim>\<open>relative(p, "")\<close> is \<^verbatim>\<open>relative(p)\<close>.  When \<^verbatim>\<open>os.getcwd()\<close> raises, the call
  raises the same exception.  When it returns \<open>cwd\<close>, the call is \<^verbatim>\<open>relative(p, cwd)\<close> and its
  result is computed against \<open>cwd\<close>: the remaining components of \<open>p\<close> as a string when \<open>p\<close>
  is a descendant of \<open>cwd\<close> as the components compare, \<^verbatim>\<open>ValueError\<close> when it is not.
\<close>

theorem relative_empty_base_is_cwd:
  "relative pf p (Some []) = relative pf p None \<and>
   (\<forall>e. os_getcwd pf = Inl e \<longrightarrow> relative pf p (Some []) = Inl (Builtin e)) \<and>
   (\<forall>cwd. os_getcwd pf = Inr cwd \<longrightarrow>
      relative pf p (Some []) = relative pf p (Some cwd) \<and>
      relative pf p (Some []) =
        (if lexical_descendant (Path_str p) (Path_str cwd)
         then Inr (str_path (mk_path [] (drop (length (components (Path_str cwd)))
                                          (components (Path_str p)))))
         else Inl (Builtin ValueError)))"
proof (intro conjI allI impI)
  show a: "relative pf p (Some []) = relative pf p None" by (simp add: relative_against)
  show "relative pf p (Some []) = Inl (Builtin e)" if "os_getcwd pf = Inl e" for e
    using that by (simp add: a relative_cwd)
  show "relative pf p (Some []) = relative pf p (Some cwd)" if "os_getcwd pf = Inr cwd" for cwd
    using that by (cases "cwd = []") (simp_all only: a relative_against [of pf p cwd] relative_cwd sum.case if_True if_False simp_thms)
  show "relative pf p (Some []) =
        (if lexical_descendant (Path_str p) (Path_str cwd)
         then Inr (str_path (mk_path [] (drop (length (components (Path_str cwd)))
                                          (components (Path_str p)))))
         else Inl (Builtin ValueError))" if "os_getcwd pf = Inr cwd" for cwd
    using that by (simp only: a relative_cwd sum.case)
qed

theorem relative_empty_base_is_cwd_witness:
  "os_getcwd bare_platform = Inr ''/home/user'' \<and>
   relative bare_platform ''/home/user/x'' (Some []) =
     relative bare_platform ''/home/user/x'' (Some ''/home/user'') \<and>
   relative bare_platform ''/home/user/x'' (Some []) = Inr ''x'' \<and>
   relative bare_platform ''/etc/x'' (Some []) = Inl (Builtin ValueError) \<and>
   relative (bare_platform\<lparr>os_getcwd := Inl OSError\<rparr>) ''/home/user/x'' (Some [])
     = Inl (Builtin OSError)"
proof -
  have cwd: "os_getcwd bare_platform = Inr ''/home/user''" by (simp add: bare_platform_def)
  have d1: "lexical_descendant (Path_str ''/home/user/x'') (Path_str ''/home/user'')"
    by code_simp
  have v1: "str_path (mk_path [] (drop (length (components (Path_str ''/home/user'')))
                                    (components (Path_str ''/home/user/x'')))) = ''x''"
    by code_simp
  have d2: "\<not> lexical_descendant (Path_str ''/etc/x'') (Path_str ''/home/user'')"
    by code_simp
  have f: "os_getcwd (bare_platform\<lparr>os_getcwd := Inl OSError\<rparr>) = Inl OSError" by simp
  from relative_empty_base_is_cwd [of bare_platform "''/home/user/x''"] cwd
  have a: "relative bare_platform ''/home/user/x'' (Some []) =
             relative bare_platform ''/home/user/x'' (Some ''/home/user'')"
    and b: "relative bare_platform ''/home/user/x'' (Some []) =
        (if lexical_descendant (Path_str ''/home/user/x'') (Path_str ''/home/user'')
         then Inr (str_path (mk_path [] (drop (length (components (Path_str ''/home/user'')))
                                          (components (Path_str ''/home/user/x'')))))
         else Inl (Builtin ValueError))"
    by blast+
  from relative_empty_base_is_cwd [of bare_platform "''/etc/x''"] cwd
  have c: "relative bare_platform ''/etc/x'' (Some []) =
        (if lexical_descendant (Path_str ''/etc/x'') (Path_str ''/home/user'')
         then Inr (str_path (mk_path [] (drop (length (components (Path_str ''/home/user'')))
                                          (components (Path_str ''/etc/x'')))))
         else Inl (Builtin ValueError))"
    by blast
  from relative_empty_base_is_cwd [of "bare_platform\<lparr>os_getcwd := Inl OSError\<rparr>" "''/home/user/x''"] f
  have e: "relative (bare_platform\<lparr>os_getcwd := Inl OSError\<rparr>) ''/home/user/x'' (Some [])
     = Inl (Builtin OSError)"
    by blast
  from b d1 v1 have b': "relative bare_platform ''/home/user/x'' (Some []) = Inr ''x''"
    by (simp only: if_True)
  from c d2 have c': "relative bare_platform ''/etc/x'' (Some []) = Inl (Builtin ValueError)"
    by (simp only: if_False)
  from cwd a b' c' e show ?thesis by (intro conjI)
qed

subsection \<open>Claims on construction and equality\<close>

text \<open>
  C2, as stated, fails: \<^verbatim>\<open>str(RoadPath(""))\<close> is \<^verbatim>\<open>"."\<close>, not the empty string.
\<close>

theorem str_not_preserved_counterexample:
  "str_RoadPath [] = Inr ''.'' \<and> str_RoadPath [] \<noteq> Inr []"
  by code_simp

text \<open>
  C2, amended: for every string \<open>s\<close>, constructing \<^verbatim>\<open>RoadPath(s)\<close> raises no error;
  \<^verbatim>\<open>str(RoadPath(s))\<close> is \<open>s\<close> exactly when \<open>s\<close> is the rendering of a well-formed path (a
  root that is empty, \<^verbatim>\<open>/\<close> or \<^verbatim>\<open>//\<close>, then components joined by single separators, none
  empty or \<^verbatim>\<open>.\<close>; the lone \<^verbatim>\<open>.\<close> for no root and no component); rendering is a fixed
  point, \<^verbatim>\<open>str(RoadPath(c)) = c\<close> for \<^verbatim>\<open>c = str(RoadPath(s))\<close>; and \<^verbatim>\<open>str(RoadPath(""))\<close> is
  \<^verbatim>\<open>"."\<close>.
\<close>

theorem str_is_canonical_form:
  "(\<exists>r. RoadPath_init (PyStr s) = Inr r) \<and>
   (str_RoadPath s = Inr s) = (\<exists>p. wf_path p \<and> s = str_path p) \<and>
   (\<exists>c. str_RoadPath s = Inr c \<and> str_RoadPath c = Inr c) \<and>
   str_RoadPath [] = Inr dot"
proof (intro conjI)
  show "\<exists>r. RoadPath_init (PyStr s) = Inr r" by (simp add: RoadPath_init_PyStr)
  show "(str_RoadPath s = Inr s) = (\<exists>p. wf_path p \<and> s = str_path p)"
  proof
    assume "str_RoadPath s = Inr s"
    then have "s = str_path (Path_str s)" by (simp add: str_RoadPath_eq)
    with wf_Path_str [of s] show "\<exists>p. wf_path p \<and> s = str_path p" by blast
  next
    assume "\<exists>p. wf_path p \<and> s = str_path p"
    then show "str_RoadPath s = Inr s" by (auto simp: str_RoadPath_eq Path_str_str_path)
  qed
  show "\<exists>c. str_RoadPath s = Inr c \<and> str_RoadPath c = Inr c"
    by (simp add: str_RoadPath_eq Path_str_str_path wf_Path_str)
  show "str_RoadPath [] = Inr dot"
    by (simp add: str_RoadPath_eq Path_str_eq splitroot_def comps_of_def split_sep_def
        str_path_def format_parsed_parts_def)
qed

text \<open>
  C3, as stated, fails: \<^verbatim>\<open>/a/b/../c\<close> and \<^verbatim>\<open>/a/c\<close> have the same normalisation, and the two
  \<^verbatim>\<open>RoadPath\<close> values are not equal.
\<close>

theorem eq_not_normalized_counterexample:
  "RoadPath_str_eq ''/a/b/../c'' ''/a/c'' = Inr False \<and>
   normalize ''/a/b/../c'' = normalize ''/a/c''"
  by code_simp

text \<open>
  C3, amended: \<^verbatim>\<open>RoadPath(s) == RoadPath(t)\<close> never raises and holds if and only if the two
  strings parse to the same path, that is \<^verbatim>\<open>str(RoadPath(s)) = str(RoadPath(t))\<close>; when it
  holds, \<^verbatim>\<open>normalize(s) = normalize(t)\<close>.
\<close>

theorem eq_is_parsed_equality:
  "RoadPath_str_eq s t = Inr (str_RoadPath s = str_RoadPath t) \<and>
   (RoadPath_str_eq s t = Inr True \<longrightarrow> normalize s = normalize t)"
proof
  show "RoadPath_str_eq s t = Inr (str_RoadPath s = str_RoadPath t)"
    unfolding RoadPath_str_eq_parts str_RoadPath_eq
    using parts_eq_iff_str_eq [of s t] by simp
  show "RoadPath_str_eq s t = Inr True \<longrightarrow> normalize s = normalize t"
  proof
    assume "RoadPath_str_eq s t = Inr True"
    then have "p_parts (Path_str s) = p_parts (Path_str t)" by (simp add: RoadPath_str_eq_parts)
    then have "Path_str s = Path_str t" by (rule wf_parts_inj [OF wf_Path_str wf_Path_str])
    then show "normalize s = normalize t" unfolding normalize_def by (rule normpath_same_path)
  qed
qed

theorem eq_is_parsed_equality_witness:
  "RoadPath_str_eq ''/a//b/'' ''/a/./b'' = Inr True \<and>
   normalize ''/a//b/'' = normalize ''/a/./b'' \<and>
   str_RoadPath ''/a//b/'' = str_RoadPath ''/a/./b''"
proof -
  have "RoadPath_str_eq ''/a//b/'' ''/a/./b'' = Inr True" by code_simp
  with eq_is_parsed_equality [of "''/a//b/''" "''/a/./b''"] show ?thesis by simp
qed

subsection \<open>Claims on the free functions\<close>

text \<open>
  C4: for every path string \<open>p\<close> (the empty one included), \<^verbatim>\<open>join(dirname(p), basename(p))\<close>
  returns a string whose normalisation is that of \<open>p\<close>:
  \<^verbatim>\<open>normalize(join(dirname(p), basename(p))) = normalize(p)\<close>.
\<close>

theorem join_dirname_basename:
  "\<exists>j. join [dirname p, basename p] = Inr j \<and> normalize j = normalize p"
  by (simp add: join_def Path_dirname_basename and_then_def normalize_def normpath_str_path)

text \<open>
  C5, as stated, fails: \<^verbatim>\<open>splitext("/")\<close> raises \<^verbatim>\<open>ValueError\<close>, the root having no final
  component whose suffix could be replaced.
\<close>

theorem splitext_root_fails_counterexample:
  "splitext ''/'' = Inl (Builtin ValueError)"
  by code_simp

text \<open>
  C5, amended: when \<^verbatim>\<open>basename(p)\<close> is empty, \<^verbatim>\<open>splitext(p)\<close> raises \<^verbatim>\<open>ValueError\<close>; when it
  is not, \<^verbatim>\<open>splitext(p)\<close> returns a pair whose concatenation is \<^verbatim>\<open>str(Path(p))\<close>, so that
  \<^verbatim>\<open>basename(root + extension) = basename(p)\<close>.
\<close>

theorem splitext_reconstructs_name:
  "(basename p = [] \<longrightarrow> splitext p = Inl (Builtin ValueError)) \<and>
   (basename p \<noteq> [] \<longrightarrow>
      (\<exists>r e. splitext p = Inr (r, e) \<and> r @ e = str_path (Path_str p)
         \<and> basename (r @ e) = basename p))"
proof (intro conjI impI)
  assume "basename p = []"
  then show "splitext p = Inl (Builtin ValueError)"
    by (simp add: splitext_def basename_def Let_def with_suffix_empty_name and_then_def)
next
  assume "basename p \<noteq> []"
  from splitext_ok [OF this] obtain r e where
    re: "splitext p = Inr (r, e)" "r @ e = str_path (Path_str p)" by blast
  have "basename (r @ e) = basename p"
    by (simp add: re(2) basename_def Path_str_str_path wf_Path_str)
  with re show "\<exists>r e. splitext p = Inr (r, e) \<and> r @ e = str_path (Path_str p)
         \<and> basename (r @ e) = basename p" by blast
qed

theorem splitext_reconstructs_name_witness:
  "basename ''/'' = [] \<and> splitext ''/'' = Inl (Builtin ValueError) \<and>
   basename ''/a/b.tar.gz'' \<noteq> [] \<and>
   (\<exists>r e. splitext ''/a/b.tar.gz'' = Inr (r, e) \<and> r @ e = str_path (Path_str ''/a/b.tar.gz'')
      \<and> basename (r @ e) = basename ''/a/b.tar.gz'')"
proof -
  have a: "basename ''/'' = []" by code_simp
  have b: "basename ''/a/b.tar.gz'' \<noteq> []" by code_simp
  from a b splitext_reconstructs_name [of "''/''"] splitext_reconstructs_name [of "''/a/b.tar.gz''"]
  show ?thesis by blast
qed

subsection \<open>Claims on relative paths, the builder and errors\<close>

text \<open>
  C6: \<^verbatim>\<open>RoadPath("/a/b/c").relative_to("/a")\<close> returns a value equal to \<^verbatim>\<open>RoadPath("b/c")\<close>,
  and with the base \<^verbatim>\<open>/z\<close> it raises the primitive's \<^verbatim>\<open>ValueError\<close>.  In general, for a
  receiver \<^verbatim>\<open>RoadPath(s)\<close> and a base given as the string \<open>t\<close>, as \<^verbatim>\<open>Path(t)\<close> or as
  \<^verbatim>\<open>RoadPath(t)\<close>: when the receiver is a descendant of the base as the components compare,
  the result is the relative path of the remaining components; when it is not, the call
  raises \<^verbatim>\<open>ValueError\<close> and returns no value.
\<close>

theorem relative_to_descendant_or_error:
  "and_then (RoadPath_relative_to (RoadPath (Path_str ''/a/b/c'')) (PyStr ''/a''))
      (\<lambda>r. RoadPath_eq r (PyRoadPath (RoadPath (Path_str ''b/c'')))) = Inr True \<and>
   RoadPath_relative_to (RoadPath (Path_str ''/a/b/c'')) (PyStr ''/z'') = Inl (Builtin ValueError) \<and>
   (\<forall>s t base.
      base \<in> {PyStr t, PyPath (Path_str t), PyRoadPath (RoadPath (Path_str t))} \<longrightarrow>
      RoadPath_relative_to (RoadPath (Path_str s)) base =
        (if lexical_descendant (Path_str s) (Path_str t)
         then Inr (RoadPath (mk_path [] (drop (length (components (Path_str t)))
                                          (components (Path_str s)))))
         else Inl (Builtin ValueError)))"
proof (intro conjI allI impI)
  show "and_then (RoadPath_relative_to (RoadPath (Path_str ''/a/b/c'')) (PyStr ''/a''))
      (\<lambda>r. RoadPath_eq r (PyRoadPath (RoadPath (Path_str ''b/c'')))) = Inr True"
    by code_simp
  show "RoadPath_relative_to (RoadPath (Path_str ''/a/b/c'')) (PyStr ''/z'') = Inl (Builtin ValueError)"
    by code_simp
next
  fix s t base
  assume base: "base \<in> {PyStr t, PyPath (Path_str t), PyRoadPath (RoadPath (Path_str t))}"
  let ?base = "(case base of PyRoadPath r \<Rightarrow> PyPath (path_of r) | _ \<Rightarrow> base)"
  from base have b: "?base \<in> {PyStr t, PyPath (Path_str t)}" by auto
  let ?q = "mk_path [] (drop (length (components (Path_str t))) (components (Path_str s)))"
  have "list_all wf_comp (drop (length (components (Path_str t))) (components (Path_str s)))"
    using comps_of_wf [of s] by (auto simp: list_all_iff Path_str_components dest: in_set_dropD)
  then have "wf_path ?q" by (simp add: wf_root_def)
  then have q: "RoadPath_init (PyPath ?q) = Inr (RoadPath ?q)" by (rule RoadPath_init_PyPath)
  show "RoadPath_relative_to (RoadPath (Path_str s)) base =
        (if lexical_descendant (Path_str s) (Path_str t) then Inr (RoadPath ?q)
         else Inl (Builtin ValueError))"
    unfolding RoadPath_relative_to_def Let_def
    by (simp add: relative_to_str [OF b] and_then_def q del: mk_path_sel)
qed

theorem relative_to_descendant_or_error_witness:
  "PyRoadPath (RoadPath (Path_str ''/z'')) \<in>
     {PyStr ''/z'', PyPath (Path_str ''/z''), PyRoadPath (RoadPath (Path_str ''/z''))} \<and>
   \<not> lexical_descendant (Path_str ''/a/b/c'') (Path_str ''/z'') \<and>
   RoadPath_relative_to (RoadPath (Path_str ''/a/b/c'')) (PyRoadPath (RoadPath (Path_str ''/z'')))
     = Inl (Builtin ValueError)"
proof -
  have n: "\<not> lexical_descendant (Path_str ''/a/b/c'') (Path_str ''/z'')" by code_simp
  have m: "PyRoadPath (RoadPath (Path_str ''/z'')) \<in>
     {PyStr ''/z'', PyPath (Path_str ''/z''), PyRoadPath (RoadPath (Path_str ''/z''))}" by simp
  from relative_to_descendant_or_error have
    "RoadPath_relative_to (RoadPath (Path_str ''/a/b/c'')) (PyRoadPath (RoadPath (Path_str ''/z''))) =
        (if lexical_descendant (Path_str ''/a/b/c'') (Path_str ''/z'')
         then Inr (RoadPath (mk_path [] (drop (length (components (Path_str ''/z'')))
                                          (components (Path_str ''/a/b/c'')))))
         else Inl (Builtin ValueError))"
    using m by blast
  with n m show ?thesis by simp
qed

text \<open>
  C1, as stated, fails: the value built by
  \<^verbatim>\<open>builder("/tmp").add("app").parent().add("data").build()\<close> does not compare equal to
  \<^verbatim>\<open>RoadPath("/tmp/data")\<close>.
\<close>

theorem builder_not_normalized_counterexample:
  "and_then
     (PathBuilder_build
        (PathBuilder_add (PathBuilder_parent (PathBuilder_add (builder ''/tmp'') [''app'']))
           [''data'']))
     (\<lambda>r. RoadPath_eq r (PyRoadPath (RoadPath (Path_str ''/tmp/data'')))) = Inr False"
  by code_simp

text \<open>
  C1, amended: \<^verbatim>\<open>PathBuilder.parent()\<close> appends a literal \<^verbatim>\<open>..\<close> segment; \<^verbatim>\<open>build()\<close> always
  succeeds and returns the \<^verbatim>\<open>RoadPath\<close> of \<^verbatim>\<open>Path(*segments)\<close>, which keeps \<^verbatim>\<open>..\<close>.  The
  expression \<^verbatim>\<open>builder("/tmp").add("app").parent().add("data").build()\<close> returns a value equal
  to \<^verbatim>\<open>RoadPath("/tmp/app/../data")\<close>, its string is \<^verbatim>\<open>/tmp/app/../data\<close>, and it is the
  \<^verbatim>\<open>normalize()\<close> of that value that compares equal to \<^verbatim>\<open>RoadPath("/tmp/data")\<close>.
\<close>

theorem builder_keeps_dotdot:
  "b_parts (PathBuilder_parent b) = b_parts b @ [''..''] \<and>
   (\<exists>q. Path (map PyStr (b_parts b)) = Inr q \<and> PathBuilder_build b = Inr (RoadPath q)) \<and>
   PathBuilder_build
     (PathBuilder_add (PathBuilder_parent (PathBuilder_add (builder ''/tmp'') [''app'']))
        [''data''])
     = Inr (RoadPath (Path_str ''/tmp/app/../data'')) \<and>
   PathBuilder_str
     (PathBuilder_add (PathBuilder_parent (PathBuilder_add (builder ''/tmp'') [''app'']))
        [''data''])
     = Inr ''/tmp/app/../data'' \<and>
   and_then
     (PathBuilder_build
        (PathBuilder_add (PathBuilder_parent (PathBuilder_add (builder ''/tmp'') [''app'']))
           [''data'']))
     (\<lambda>r. RoadPath_eq r (PyRoadPath (RoadPath (Path_str ''/tmp/app/../data'')))) = Inr True \<and>
   and_then
     (PathBuilder_build
        (PathBuilder_add (PathBuilder_parent (PathBuilder_add (builder ''/tmp'') [''app'']))
           [''data'']))
     (\<lambda>r. and_then (RoadPath_normalize r)
        (\<lambda>n. RoadPath_eq n (PyRoadPath (RoadPath (Path_str ''/tmp/data''))))) = Inr True"
proof (intro conjI)
  show "b_parts (PathBuilder_parent b) = b_parts b @ [''..'']"
    by (simp add: PathBuilder_parent_def dotdot_def)
  show "\<exists>q. Path (map PyStr (b_parts b)) = Inr q \<and> PathBuilder_build b = Inr (RoadPath q)"
    by (rule build_ok)
  show "PathBuilder_build
     (PathBuilder_add (PathBuilder_parent (PathBuilder_add (builder ''/tmp'') [''app'']))
        [''data''])
     = Inr (RoadPath (Path_str ''/tmp/app/../data''))"
    by code_simp
  show "PathBuilder_str
     (PathBuilder_add (PathBuilder_parent (PathBuilder_add (builder ''/tmp'') [''app'']))
        [''data''])
     = Inr ''/tmp/app/../data''"
    by code_simp
  show "and_then
     (PathBuilder_build
        (PathBuilder_add (PathBuilder_parent (PathBuilder_add (builder ''/tmp'') [''app'']))
           [''data'']))
     (\<lambda>r. RoadPath_eq r (PyRoadPath (RoadPath (Path_str ''/tmp/app/../data'')))) = Inr True"
    by code_simp
  show "and_then
     (PathBuilder_build
        (PathBuilder_add (PathBuilder_parent (PathBuilder_add (builder ''/tmp'') [''app'']))
           [''data'']))
     (\<lambda>r. and_then (RoadPath_normalize r)
        (\<lambda>n. RoadPath_eq n (PyRoadPath (RoadPath (Path_str ''/tmp/data''))))) = Inr True"
    by code_simp
qed

text \<open>
  C7: no operation of the module raises \<^verbatim>\<open>PathError\<close>, for any input and any platform: every
  operation that can fail at all (the constructor and factories, the operators, the
  properties and methods that build a new \<^verbatim>\<open>RoadPath\<close>, the filesystem queries, the free
  functions and the builder) fails with a built-in exception of a primitive.  The remaining
  operations (\<^verbatim>\<open>__str__\<close>, \<^verbatim>\<open>__repr__\<close>, \<^verbatim>\<open>path\<close>, \<^verbatim>\<open>name\<close>, \<^verbatim>\<open>stem\<close>, \<^verbatim>\<open>suffix\<close>, \<^verbatim>\<open>suffixes\<close>,
  \<^verbatim>\<open>parts\<close>, \<^verbatim>\<open>parse\<close>, \<^verbatim>\<open>is_absolute\<close>, \<^verbatim>\<open>split\<close>, \<^verbatim>\<open>dirname\<close>, \<^verbatim>\<open>basename\<close>, \<^verbatim>\<open>normalize\<close>,
  \<^verbatim>\<open>expanduser\<close>, \<^verbatim>\<open>expandvars\<close>, \<^verbatim>\<open>expand\<close>, \<^verbatim>\<open>commonprefix\<close>, and the builder's \<^verbatim>\<open>add\<close> and
  \<^verbatim>\<open>parent\<close>) return a value on every input.
\<close>

theorem never_raises_PathError:
  "\<not> raises_PathError (RoadPath_init x) \<and>
   \<not> raises_PathError (RoadPath_cwd pf) \<and>
   \<not> raises_PathError (RoadPath_home pf) \<and>
   \<not> raises_PathError (RoadPath_temp pf) \<and>
   \<not> raises_PathError (RoadPath_truediv self x) \<and>
   \<not> raises_PathError (RoadPath_eq self x) \<and>
   \<not> raises_PathError (RoadPath_parent self) \<and>
   \<not> raises_PathError (RoadPath_parents self) \<and>
   \<not> raises_PathError (RoadPath_absolute pf self) \<and>
   \<not> raises_PathError (RoadPath_resolve pf self) \<and>
   \<not> raises_PathError (RoadPath_normalize self) \<and>
   \<not> raises_PathError (RoadPath_relative_to self x) \<and>
   \<not> raises_PathError (RoadPath_with_name self s) \<and>
   \<not> raises_PathError (RoadPath_with_stem self s) \<and>
   \<not> raises_PathError (RoadPath_with_suffix self s) \<and>
   \<not> raises_PathError (RoadPath_join self ss) \<and>
   \<not> raises_PathError (RoadPath_exists pf self) \<and>
   \<not> raises_PathError (RoadPath_is_file pf self) \<and>
   \<not> raises_PathError (RoadPath_is_dir pf self) \<and>
   \<not> raises_PathError (RoadPath_is_symlink pf self) \<and>
   \<not> raises_PathError (RoadPath_match pf self s) \<and>
   \<not> raises_PathError (RoadPath_glob pf self s) \<and>
   \<not> raises_PathError (RoadPath_rglob pf self s) \<and>
   \<not> raises_PathError (join ss) \<and>
   \<not> raises_PathError (splitext s) \<and>
   \<not> raises_PathError (absolute pf s) \<and>
   \<not> raises_PathError (resolve pf s) \<and>
   \<not> raises_PathError (relative pf s base) \<and>
   \<not> raises_PathError (commonpath pf ss) \<and>
   \<not> raises_PathError (samefile pf s t) \<and>
   \<not> raises_PathError (PathBuilder_build b) \<and>
   \<not> raises_PathError (PathBuilder_str b)"
proof -
  have eq: "\<not> raises_PathError (RoadPath_eq self x)"
    by (cases x) (simp_all add: RoadPath_eq_def np)
  have rel: "\<not> raises_PathError (relative pf s base)"
    by (cases base) (simp_all add: relative_def np)
  have build: "\<not> raises_PathError (PathBuilder_build b)"
    by (simp add: PathBuilder_build_def np)
  show ?thesis
    by (intro conjI eq rel build)
       (simp_all add: RoadPath_cwd_def RoadPath_home_def RoadPath_temp_def RoadPath_truediv_def
          RoadPath_parent_def RoadPath_parents_def RoadPath_absolute_def RoadPath_resolve_def
          RoadPath_normalize_def RoadPath_relative_to_def RoadPath_with_name_def
          RoadPath_with_stem_def RoadPath_with_suffix_def RoadPath_join_def RoadPath_exists_def
          RoadPath_is_file_def RoadPath_is_dir_def RoadPath_is_symlink_def RoadPath_match_def
          RoadPath_glob_def RoadPath_rglob_def join_def splitext_def absolute_def resolve_def
          commonpath_def samefile_def PathBuilder_str_def Let_def build np)
qed

end
